theory Spec2Isabelle
  imports Main "HOL-Library.Sublist" "HOL-Library.AList"
begin

section \<open>The notebook to HTML converter of \<^verbatim>\<open>ipynb_to_html.py\<close>\<close>

text \<open>
  The converter orchestrates three external libraries (the notebook reader and exporter,
  the execution preprocessor, the HTML parser) over the file system. The model keeps the
  program's own code as it is written: the checks, the order of the effects, the
  exceptions and the \<^verbatim>\<open>try\<close> blocks. The libraries are parameters (a record of
  functions), the file system and the printed lines are an explicit state, and every
  \<^verbatim>\<open>raise\<close> is a value \<open>Inl e\<close> returned together with the state reached so far.
\<close>

subsection \<open>Exceptions and printed lines\<close>

text \<open>
  \<open>External m\<close> is any exception raised inside one of the libraries; the others are the
  Python built-ins the program and the operating system raise.
\<close>

datatype error =
    FileNotFoundError
  | ValueError
  | NotADirectoryError
  | IsADirectoryError
  | FileExistsError
  | External string

type_synonym path = "string list"

text \<open>One constructor for each \<^verbatim>\<open>print\<close> call of the converter class.\<close>

datatype event =
    Executing path
  | ExecuteWarning string
  | Proceeding
  | Converting path
  | Converted path
  | ErrorConverting path error
  | NoNotebooksFound path
  | Found nat
  | FailedToConvert path error

subsection \<open>Pure paths (\<^verbatim>\<open>pathlib.PurePath\<close>)\<close>

text \<open>
  A path is the list of its components below a fixed base directory (the root, or the
  working directory for relative paths); \<open>[]\<close> is that base. \<open>d @ r\<close> is \<^verbatim>\<open>d / r\<close>
  for a relative \<open>r\<close>.
\<close>

definition name :: "path \<Rightarrow> string" where
  "name p = (if p = [] then [] else last p)"

definition parent :: "path \<Rightarrow> path" where
  "parent p = butlast p"

text \<open>\<^verbatim>\<open>str.rfind\<close>: the last position of a character, \<open>None\<close> for Python's \<open>-1\<close>.\<close>

fun rfind :: "char \<Rightarrow> string \<Rightarrow> nat option" where
  "rfind c [] = None"
| "rfind c (x # xs) =
     (case rfind c xs of
        Some i \<Rightarrow> Some (Suc i)
      | None \<Rightarrow> if x = c then Some 0 else None)"

text \<open>
  \<^verbatim>\<open>suffix\<close> and \<^verbatim>\<open>stem\<close>: the final component is cut at its last dot, unless
  that dot is the first or the last character.
\<close>

definition name_suffix :: "string \<Rightarrow> string" where
  "name_suffix n =
     (case rfind (CHR ''.'') n of
        None \<Rightarrow> []
      | Some i \<Rightarrow> if 0 < i \<and> i < length n - 1 then drop i n else [])"

definition name_stem :: "string \<Rightarrow> string" where
  "name_stem n =
     (case rfind (CHR ''.'') n of
        None \<Rightarrow> n
      | Some i \<Rightarrow> if 0 < i \<and> i < length n - 1 then take i n else n)"

definition path_suffix :: "path \<Rightarrow> string" where
  "path_suffix p = name_suffix (name p)"

definition stem :: "path \<Rightarrow> string" where
  "stem p = name_stem (name p)"

text \<open>\<^verbatim>\<open>with_suffix\<close> raises \<^verbatim>\<open>ValueError\<close> on an invalid suffix or an empty name.\<close>

definition with_suffix :: "path \<Rightarrow> string \<Rightarrow> error + path" where
  "with_suffix p s =
     (if CHR ''/'' \<in> set s then Inl ValueError
      else if (s \<noteq> [] \<and> hd s \<noteq> CHR ''.'') \<or> s = ''.'' then Inl ValueError
      else if name p = [] then Inl ValueError
      else
        let old_suffix = path_suffix p;
            n = (if old_suffix = [] then name p @ s
                 else take (length (name p) - length old_suffix) (name p) @ s)
        in Inr (parent p @ [n]))"

text \<open>\<^verbatim>\<open>relative_to\<close> raises \<^verbatim>\<open>ValueError\<close> when the path is not below the other.\<close>

definition relative_to :: "path \<Rightarrow> path \<Rightarrow> error + path" where
  "relative_to p d = (if prefix d p then Inr (drop (length d) p) else Inl ValueError)"

text \<open>\<^verbatim>\<open>str.lower\<close> on the ASCII letters; every other byte is kept.\<close>

definition lower_char :: "char \<Rightarrow> char" where
  "lower_char c =
     (let n = (of_char c :: nat) in if 65 \<le> n \<and> n \<le> 90 then char_of (n + 32) else c)"

definition lower :: "string \<Rightarrow> string" where
  "lower s = map lower_char s"

subsection \<open>The file system\<close>

text \<open>
  A file system state lists the entries that exist, each under its path; the base
  directory \<open>[]\<close> always exists. Symbolic links and permissions are not modelled.
  The operations fail as the operating system does: a missing parent directory is
  \<^verbatim>\<open>FileNotFoundError\<close>, a regular file on the way is \<^verbatim>\<open>NotADirectoryError\<close>.
\<close>

datatype node = File string | Dir

type_synonym filesystem = "(path \<times> node) list"

definition lookup :: "filesystem \<Rightarrow> path \<Rightarrow> node option" where
  "lookup fs p = (if p = [] then Some Dir else map_of fs p)"

definition path_exists :: "filesystem \<Rightarrow> path \<Rightarrow> bool" where
  "path_exists fs p = (lookup fs p \<noteq> None)"

definition is_dir :: "filesystem \<Rightarrow> path \<Rightarrow> bool" where
  "is_dir fs p = (lookup fs p = Some Dir)"

definition is_file :: "filesystem \<Rightarrow> path \<Rightarrow> bool" where
  "is_file fs p = (case lookup fs p of Some (File _) \<Rightarrow> True | _ \<Rightarrow> False)"

text \<open>
  Resolving the directory a new entry goes into: \<open>None\<close> when it is a directory,
  otherwise the error of the first component that is missing or is a regular file.
\<close>

definition parent_error :: "filesystem \<Rightarrow> path \<Rightarrow> error option" where
  "parent_error fs p =
     (case lookup fs (parent p) of
        Some Dir \<Rightarrow> None
      | Some (File _) \<Rightarrow> Some NotADirectoryError
      | None \<Rightarrow>
          if list_ex (is_file fs) (prefixes (parent p)) then Some NotADirectoryError
          else Some FileNotFoundError)"

text \<open>\<^verbatim>\<open>open(p, 'r')\<close> followed by reading the whole file.\<close>

definition open_read :: "filesystem \<Rightarrow> path \<Rightarrow> error + string" where
  "open_read fs p =
     (case lookup fs p of
        None \<Rightarrow> Inl FileNotFoundError
      | Some Dir \<Rightarrow> Inl IsADirectoryError
      | Some (File content) \<Rightarrow> Inr content)"

text \<open>\<^verbatim>\<open>open(p, 'w')\<close> followed by one \<^verbatim>\<open>write\<close>: creates or truncates the file.\<close>

definition open_write :: "filesystem \<Rightarrow> path \<Rightarrow> string \<Rightarrow> error + filesystem" where
  "open_write fs p content =
     (if is_dir fs p then Inl IsADirectoryError
      else case parent_error fs p of
        Some e \<Rightarrow> Inl e
      | None \<Rightarrow> Inr (AList.update p (File content) fs))"

text \<open>\<^verbatim>\<open>os.mkdir\<close>.\<close>

definition os_mkdir :: "filesystem \<Rightarrow> path \<Rightarrow> error + filesystem" where
  "os_mkdir fs p =
     (if path_exists fs p then Inl FileExistsError
      else case parent_error fs p of
        Some e \<Rightarrow> Inl e
      | None \<Rightarrow> Inr (AList.update p Dir fs))"

text \<open>
  \<^verbatim>\<open>Path.mkdir(parents, exist_ok)\<close>, as pathlib writes it: try \<^verbatim>\<open>os.mkdir\<close>; on
  \<^verbatim>\<open>FileNotFoundError\<close> with \<^verbatim>\<open>parents\<close> create the parent first and retry; any
  other error is swallowed only with \<^verbatim>\<open>exist_ok\<close> on an existing directory.
\<close>

function mkdir :: "bool \<Rightarrow> bool \<Rightarrow> path \<Rightarrow> filesystem \<Rightarrow> error option \<times> filesystem" where
  "mkdir parents exist_ok p fs =
     (case os_mkdir fs p of
        Inr fs' \<Rightarrow> (None, fs')
      | Inl e \<Rightarrow>
          if e = FileNotFoundError then
            (if \<not> parents \<or> parent p = p then (Some e, fs)
             else
               (case mkdir True True (parent p) fs of
                  (Some e', fs') \<Rightarrow> (Some e', fs')
                | (None, fs') \<Rightarrow> mkdir False exist_ok p fs'))
          else if \<not> exist_ok \<or> \<not> is_dir fs p then (Some e, fs)
          else (None, fs))"
  by pat_completeness auto
termination
proof (relation "measures [\<lambda>(pa, ex, p, fs). length p, \<lambda>(pa, ex, p, fs). if pa then 1 else 0]")
  show "wf (measures [\<lambda>(pa, ex, p, fs). length p, \<lambda>(pa, ex, p, fs). if pa then 1 else 0])"
    by simp
next
  fix parents exist_ok :: bool and p :: path and fs :: filesystem and e
  assume "\<not> (\<not> parents \<or> parent p = p)"
  then have "p \<noteq> []"
    by (auto simp: parent_def)
  then show "((True, True, parent p, fs), (parents, exist_ok, p, fs))
      \<in> measures [\<lambda>(pa, ex, p, fs). length p, \<lambda>(pa, ex, p, fs). if pa then 1 else 0]"
    by (simp add: parent_def)
next
  fix parents exist_ok :: bool and p :: path and fs fs' :: filesystem and e
  assume "\<not> (\<not> parents \<or> parent p = p)"
  then show "((False, exist_ok, p, fs'), (parents, exist_ok, p, fs))
      \<in> measures [\<lambda>(pa, ex, p, fs). length p, \<lambda>(pa, ex, p, fs). if pa then 1 else 0]"
    by simp
qed

subsection \<open>Globbing (\<^verbatim>\<open>Path.glob\<close>)\<close>

text \<open>
  \<^verbatim>\<open>fnmatch\<close> on one component, for patterns of literal characters, \<open>*\<close> and \<open>?\<close>
  (the two patterns of the program use only literals and \<open>*\<close>); matching is
  case-sensitive, as on POSIX, and \<open>*\<close> also matches a leading dot.
\<close>

fun fnmatch :: "string \<Rightarrow> string \<Rightarrow> bool" where
  "fnmatch [] [] = True"
| "fnmatch (c # cs) [] = False"
| "fnmatch [] (p # ps) = (p = CHR ''*'' \<and> fnmatch [] ps)"
| "fnmatch (c # cs) (p # ps) =
     (if p = CHR ''*'' then fnmatch (c # cs) ps \<or> fnmatch cs (p # ps)
      else if p = CHR ''?'' then fnmatch cs ps
      else p = c \<and> fnmatch cs ps)"

text \<open>Splitting a pattern at the separator.\<close>

fun split_sep :: "string \<Rightarrow> string list" where
  "split_sep [] = [[]]"
| "split_sep (c # cs) =
     (if c = CHR ''/'' then [] # split_sep cs
      else (case split_sep cs of [] \<Rightarrow> [[c]] | w # ws \<Rightarrow> (c # w) # ws))"

text \<open>
  \<open>selects fs base segs rel\<close>: the chain of selectors for the pattern segments \<open>segs\<close>,
  started in the directory \<open>base\<close>, yields \<open>base @ rel\<close>. A segment \<open>**\<close> walks down
  through zero or more directories; any other segment picks the entries of the current
  directory whose name matches, and they must be directories unless the segment is the last.
\<close>

fun selects :: "filesystem \<Rightarrow> path \<Rightarrow> string list \<Rightarrow> string list \<Rightarrow> bool" where
  "selects fs base [] rel = (rel = [])"
| "selects fs base (seg # segs) [] = (seg = ''**'' \<and> selects fs base segs [])"
| "selects fs base (seg # segs) (c # cs) =
     (if seg = ''**'' then
        selects fs base segs (c # cs) \<or>
        (is_dir fs (base @ [c]) \<and> selects fs (base @ [c]) (seg # segs) cs)
      else
        fnmatch c seg \<and> path_exists fs (base @ [c]) \<and>
        (segs = [] \<or> is_dir fs (base @ [c])) \<and> selects fs (base @ [c]) segs cs)"

definition glob :: "filesystem \<Rightarrow> path \<Rightarrow> string \<Rightarrow> path list" where
  "glob fs d pattern =
     filter (\<lambda>p. prefix d p \<and> selects fs d (split_sep pattern) (drop (length d) p))
       (map fst fs)"

declare mkdir.simps [simp del]

subsection \<open>The external libraries\<close>

text \<open>
  The exporter object the converter configures in its constructor: the template name and
  the two switches it sets (both off by default).
\<close>

record exporter =
  template_name :: string
  exporter_embed_images :: bool
  exclude_input :: bool

text \<open>
  The resources an export returns: the mapping \<^verbatim>\<open>resources['outputs']\<close> from file
  names to payloads, in insertion order. An absent key behaves as the empty mapping
  (\<^verbatim>\<open>resources.get('outputs')\<close> is falsy for both).
\<close>

record resources =
  outputs :: "(string \<times> string) list"

text \<open>
  What the libraries do is outside the program. \<open>'nb\<close> is a notebook object, \<open>'soup\<close> a
  parsed HTML document. A library call that raises returns \<open>Inl m\<close>.
  \<^item> \<open>nbformat_read\<close>: \<^verbatim>\<open>nbformat.read(f, as_version=4)\<close> on the content of a file;
  \<^item> \<open>preprocess\<close>: \<^verbatim>\<open>ExecutePreprocessor(timeout=600, kernel_name='python3').preprocess\<close>,
    which works on the notebook object in place: the result is the exception it raised, if
    any, and the notebook object as the call left it (effects of the executed cells on the
    file system are not modelled);
  \<^item> \<open>from_notebook_node\<close>: the export to an HTML body and resources;
  \<^item> \<open>soup_parse\<close>, \<open>soup_head\<close>, \<open>soup_head_insert\<close>, \<open>soup_str\<close>:
    \<^verbatim>\<open>BeautifulSoup(s, 'html.parser')\<close>, whether \<^verbatim>\<open>soup.head\<close> exists,
    \<^verbatim>\<open>soup.head.insert(i, t)\<close> and \<^verbatim>\<open>str(soup)\<close>.
\<close>

record ('nb, 'soup) library =
  nbformat_read :: "string \<Rightarrow> string + 'nb"
  preprocess :: "'nb \<Rightarrow> path \<Rightarrow> string option \<times> 'nb"
  from_notebook_node :: "exporter \<Rightarrow> 'nb \<Rightarrow> string + (string \<times> resources)"
  soup_parse :: "string \<Rightarrow> 'soup"
  soup_head :: "'soup \<Rightarrow> bool"
  soup_head_insert :: "'soup \<Rightarrow> nat \<Rightarrow> 'soup \<Rightarrow> 'soup"
  soup_str :: "'soup \<Rightarrow> string"

subsection \<open>The state\<close>

record state =
  files :: filesystem
  printed :: "event list"

definition print :: "event \<Rightarrow> state \<Rightarrow> state" where
  "print e st = st\<lparr>printed := printed st @ [e]\<rparr>"

subsection \<open>\<^verbatim>\<open>class NotebookToHTMLConverter\<close>\<close>

record converter =
  embed_images :: bool
  include_input :: bool
  execute_notebook :: bool
  template :: string
  html_exporter :: exporter

text \<open>\<^verbatim>\<open>__init__\<close>\<close>

definition init :: "bool \<Rightarrow> bool \<Rightarrow> bool \<Rightarrow> string \<Rightarrow> converter" where
  "init embed_images_arg include_input_arg execute_notebook_arg template_arg =
     (let e0 = \<lparr>template_name = template_arg, exporter_embed_images = False,
                 exclude_input = False\<rparr>;
          e1 = (if embed_images_arg then e0\<lparr>exporter_embed_images := True\<rparr> else e0);
          e2 = (if \<not> include_input_arg then e1\<lparr>exclude_input := True\<rparr> else e1)
      in \<lparr>embed_images = embed_images_arg, include_input = include_input_arg,
          execute_notebook = execute_notebook_arg, template = template_arg,
          html_exporter = e2\<rparr>)"

text \<open>
  Reading a notebook: \<^verbatim>\<open>open(path, 'r')\<close> and \<^verbatim>\<open>nbformat.read\<close> (the first two
  statements of \<^verbatim>\<open>_execute_notebook\<close>, and the \<^verbatim>\<open>else\<close> branch of
  \<^verbatim>\<open>convert_single_file\<close>).
\<close>

definition read_notebook :: "('nb, 'soup) library \<Rightarrow> path \<Rightarrow> state \<Rightarrow> error + 'nb" where
  "read_notebook lib notebook_path st =
     (case open_read (files st) notebook_path of
        Inl e \<Rightarrow> Inl e
      | Inr content \<Rightarrow>
          (case nbformat_read lib content of
             Inl m \<Rightarrow> Inl (External m)
           | Inr notebook \<Rightarrow> Inr notebook))"

text \<open>
  \<^verbatim>\<open>_execute_notebook\<close> (the \<open>p_\<close> stands for the leading underscore). Reading is
  outside the \<^verbatim>\<open>try\<close>; an exception of \<^verbatim>\<open>preprocess\<close> is caught, two lines are
  printed and the notebook object is returned all the same.
\<close>

definition p_execute_notebook ::
    "('nb, 'soup) library \<Rightarrow> path \<Rightarrow> state \<Rightarrow> (error + 'nb) \<times> state" where
  "p_execute_notebook lib notebook_path st =
     (let st1 = print (Executing notebook_path) st in
      case read_notebook lib notebook_path st1 of
        Inl e \<Rightarrow> (Inl e, st1)
      | Inr notebook \<Rightarrow>
          (case preprocess lib notebook (parent notebook_path) of
             (None, notebook') \<Rightarrow> (Inr notebook', st1)
           | (Some m, notebook') \<Rightarrow>
               (Inr notebook', print Proceeding (print (ExecuteWarning m) st1))))"

definition custom_css :: string where
  "custom_css = ''
        <style>
        .container {
            max-width: 1200px;
            margin: 0 auto;
            padding: 20px;
        }
        .output_png, .output_jpeg, .output_svg {
            max-width: 100%;
            height: auto;
            display: block;
            margin: 10px auto;
            border: 1px solid #ddd;
            border-radius: 4px;
            box-shadow: 0 2px 4px rgba(0,0,0,0.1);
        }
        .dataframe {
            border-collapse: collapse;
            margin: 1em 0;
            font-size: 0.9em;
            min-width: 400px;
            border-radius: 5px 5px 0 0;
            overflow: hidden;
            box-shadow: 0 0 20px rgba(0, 0, 0, 0.15);
        }
        .dataframe thead tr {
            background-color: #009879;
            color: #ffffff;
            text-align: left;
        }
        .dataframe th,
        .dataframe td {
            padding: 12px 15px;
            border-bottom: 1px solid #dddddd;
        }
        .dataframe tbody tr {
            border-bottom: 1px solid #dddddd;
        }
        .dataframe tbody tr:nth-of-type(even) {
            background-color: #f3f3f3;
        }
        .code_cell {
            margin: 1em 0;
        }
        .input_area {
            background-color: #f8f9fa;
            border-left: 4px solid #007bff;
            padding: 10px;
            margin: 5px 0;
        }
        .output_area {
            background-color: #fff;
            border-left: 4px solid #28a745;
            padding: 10px;
            margin: 5px 0;
        }
        </style>
        ''"

text \<open>\<^verbatim>\<open>_enhance_html_output\<close>\<close>

definition p_enhance_html_output :: "('nb, 'soup) library \<Rightarrow> string \<Rightarrow> path \<Rightarrow> string" where
  "p_enhance_html_output lib html_content notebook_path =
     (let soup = soup_parse lib html_content;
          soup' = (if soup_head lib soup
                   then soup_head_insert lib soup 0 (soup_parse lib custom_css)
                   else soup)
      in soup_str lib soup')"

text \<open>
  The loop over \<^verbatim>\<open>resources['outputs'].items()\<close>: each payload is written to
  \<^verbatim>\<open>output_dir / filename\<close>; the first failing write ends the loop, and the files
  written before it stay.
\<close>

fun write_outputs :: "path \<Rightarrow> (string \<times> string) list \<Rightarrow> filesystem \<Rightarrow> error option \<times> filesystem" where
  "write_outputs output_dir [] fs = (None, fs)"
| "write_outputs output_dir ((filename, data) # rest) fs =
     (case open_write fs (output_dir @ [filename]) data of
        Inl e \<Rightarrow> (Some e, fs)
      | Inr fs' \<Rightarrow> write_outputs output_dir rest fs')"

text \<open>
  The first statement of the \<^verbatim>\<open>try\<close> block of \<^verbatim>\<open>convert_single_file\<close>:
  load and optionally execute the notebook.
\<close>

definition load_notebook ::
    "('nb, 'soup) library \<Rightarrow> converter \<Rightarrow> path \<Rightarrow> state \<Rightarrow> (error + 'nb) \<times> state" where
  "load_notebook lib self input_path st =
     (if execute_notebook self then p_execute_notebook lib input_path st
      else (read_notebook lib input_path st, st))"

text \<open>The body of the \<^verbatim>\<open>try\<close> block of \<^verbatim>\<open>convert_single_file\<close>.\<close>

definition convert_single_file_try ::
    "('nb, 'soup) library \<Rightarrow> converter \<Rightarrow> path \<Rightarrow> path \<Rightarrow> state \<Rightarrow> (error + path) \<times> state" where
  "convert_single_file_try lib self input_path output_path st =
     (case load_notebook lib self input_path st of
        (Inl e, st1) \<Rightarrow> (Inl e, st1)
      | (Inr notebook, st1) \<Rightarrow>
          (case from_notebook_node lib (html_exporter self) notebook of
             Inl m \<Rightarrow> (Inl (External m), st1)
           | Inr (body, res) \<Rightarrow>
               let enhanced_html = p_enhance_html_output lib body input_path in
               (case open_write (files st1) output_path enhanced_html of
                  Inl e \<Rightarrow> (Inl e, st1)
                | Inr fs2 \<Rightarrow>
                    if outputs res \<noteq> [] then
                      (let output_dir = parent output_path @ [stem output_path @ ''_files''] in
                       case mkdir False True output_dir fs2 of
                         (Some e, fs3) \<Rightarrow> (Inl e, st1\<lparr>files := fs3\<rparr>)
                       | (None, fs3) \<Rightarrow>
                           (case write_outputs output_dir (outputs res) fs3 of
                              (Some e, fs4) \<Rightarrow> (Inl e, st1\<lparr>files := fs4\<rparr>)
                            | (None, fs4) \<Rightarrow>
                                (Inr output_path,
                                 print (Converted output_path) (st1\<lparr>files := fs4\<rparr>))))
                    else (Inr output_path, print (Converted output_path) (st1\<lparr>files := fs2\<rparr>)))))"

text \<open>
  \<^verbatim>\<open>convert_single_file\<close>. The two checks raise before anything is printed or
  written; an exception of the \<^verbatim>\<open>try\<close> block is printed and raised again.
\<close>

definition convert_single_file ::
    "('nb, 'soup) library \<Rightarrow> converter \<Rightarrow> path \<Rightarrow> path option \<Rightarrow> state \<Rightarrow> (error + path) \<times> state" where
  "convert_single_file lib self input_path output_path st =
     (if \<not> path_exists (files st) input_path then (Inl FileNotFoundError, st)
      else if \<not> lower (path_suffix input_path) = ''.ipynb'' then (Inl ValueError, st)
      else
        let st1 = print (Converting input_path) st in
        case (case output_path of
                None \<Rightarrow> with_suffix input_path ''.html''
              | Some p \<Rightarrow> Inr p) of
          Inl e \<Rightarrow> (Inl e, st1)
        | Inr output_path' \<Rightarrow>
            (case convert_single_file_try lib self input_path output_path' st1 of
               (Inl e, st2) \<Rightarrow> (Inl e, print (ErrorConverting input_path e) st2)
             | (Inr p, st2) \<Rightarrow> (Inr p, st2)))"

text \<open>The body of the \<^verbatim>\<open>try\<close> block in the loop of \<^verbatim>\<open>convert_directory\<close>.\<close>

definition convert_directory_try ::
    "('nb, 'soup) library \<Rightarrow> converter \<Rightarrow> path \<Rightarrow> path \<Rightarrow> path \<Rightarrow> state \<Rightarrow> (error + path) \<times> state" where
  "convert_directory_try lib self input_dir output_dir notebook_file st =
     (case relative_to notebook_file input_dir of
        Inl e \<Rightarrow> (Inl e, st)
      | Inr relative_path \<Rightarrow>
          (case with_suffix relative_path ''.html'' of
             Inl e \<Rightarrow> (Inl e, st)
           | Inr html_path \<Rightarrow>
               let output_file = output_dir @ html_path in
               (case mkdir True True (parent output_file) (files st) of
                  (Some e, fs') \<Rightarrow> (Inl e, st\<lparr>files := fs'\<rparr>)
                | (None, fs') \<Rightarrow>
                    convert_single_file lib self notebook_file (Some output_file)
                      (st\<lparr>files := fs'\<rparr>))))"

text \<open>
  The \<^verbatim>\<open>for\<close> loop of \<^verbatim>\<open>convert_directory\<close>: every exception of the body is caught
  and printed, and the loop continues with the next file.
\<close>

fun convert_directory_loop ::
    "('nb, 'soup) library \<Rightarrow> converter \<Rightarrow> path \<Rightarrow> path \<Rightarrow> path list \<Rightarrow> path list \<Rightarrow> state
      \<Rightarrow> path list \<times> state" where
  "convert_directory_loop lib self input_dir output_dir [] converted_files st =
     (converted_files, st)"
| "convert_directory_loop lib self input_dir output_dir (notebook_file # rest) converted_files st =
     (case convert_directory_try lib self input_dir output_dir notebook_file st of
        (Inr converted_file, st') \<Rightarrow>
          convert_directory_loop lib self input_dir output_dir rest
            (converted_files @ [converted_file]) st'
      | (Inl e, st') \<Rightarrow>
          convert_directory_loop lib self input_dir output_dir rest converted_files
            (print (FailedToConvert notebook_file e) st'))"

text \<open>\<^verbatim>\<open>convert_directory\<close>\<close>

definition convert_directory ::
    "('nb, 'soup) library \<Rightarrow> converter \<Rightarrow> path \<Rightarrow> path option \<Rightarrow> bool \<Rightarrow> state
      \<Rightarrow> (error + path list) \<times> state" where
  "convert_directory lib self input_dir output_dir recursive st =
     (if \<not> path_exists (files st) input_dir \<or> \<not> is_dir (files st) input_dir
      then (Inl NotADirectoryError, st)
      else
        case (case output_dir of
                None \<Rightarrow> (Inr input_dir, st)
              | Some d \<Rightarrow>
                  (case mkdir True True d (files st) of
                     (Some e, fs') \<Rightarrow> (Inl e, st\<lparr>files := fs'\<rparr>)
                   | (None, fs') \<Rightarrow> (Inr d, st\<lparr>files := fs'\<rparr>))) of
          (Inl e, st1) \<Rightarrow> (Inl e, st1)
        | (Inr output_dir', st1) \<Rightarrow>
            let pattern = (if recursive then ''**/*.ipynb'' else ''*.ipynb'');
                notebook_files = glob (files st1) input_dir pattern
            in if notebook_files = [] then (Inr [], print (NoNotebooksFound input_dir) st1)
               else
                 (case convert_directory_loop lib self input_dir output_dir' notebook_files []
                         (print (Found (length notebook_files)) st1) of
                    (converted_files, st2) \<Rightarrow> (Inr converted_files, st2)))"

subsection \<open>Auxiliary notions for the statements\<close>

text \<open>
  \<open>only_new_dirs fs fs' p\<close>: the state \<open>fs'\<close> differs from \<open>fs\<close> only by directories
  that did not exist before, all of them on the way to \<open>p\<close>.
\<close>

definition only_new_dirs :: "filesystem \<Rightarrow> filesystem \<Rightarrow> path \<Rightarrow> bool" where
  "only_new_dirs fs fs' p \<longleftrightarrow>
     (\<forall>q. lookup fs' q \<noteq> lookup fs q \<longrightarrow>
          lookup fs q = None \<and> lookup fs' q = Some Dir \<and> prefix q p)"

text \<open>
  The directory for the resources of an output path: \<^verbatim>\<open>output_path.parent /
  f"{output_path.stem}_files"\<close>.
\<close>

definition side_car :: "path \<Rightarrow> path" where
  "side_car output_path = parent output_path @ [stem output_path @ ''_files'']"

text \<open>The lines the loading step prints for a notebook that could be read.\<close>

definition load_lines :: "('nb, 'soup) library \<Rightarrow> converter \<Rightarrow> path \<Rightarrow> 'nb \<Rightarrow> event list" where
  "load_lines lib self p nb0 =
     (if execute_notebook self then
        Executing p #
        (case fst (preprocess lib nb0 (parent p)) of
           None \<Rightarrow> []
         | Some m \<Rightarrow> [ExecuteWarning m, Proceeding])
      else [])"

text \<open>
  The outcome of the loop body of \<^verbatim>\<open>convert_directory\<close> for each notebook in turn,
  each in the state the loop has reached: the path returned, or the exception caught.
\<close>

fun batch_outcomes ::
    "('nb, 'soup) library \<Rightarrow> converter \<Rightarrow> path \<Rightarrow> path \<Rightarrow> path list \<Rightarrow> state
      \<Rightarrow> (path \<times> (error + path)) list" where
  "batch_outcomes lib self input_dir output_dir [] st = []"
| "batch_outcomes lib self input_dir output_dir (notebook_file # rest) st =
     (case convert_directory_try lib self input_dir output_dir notebook_file st of
        (Inr p, st') \<Rightarrow>
          (notebook_file, Inr p) # batch_outcomes lib self input_dir output_dir rest st'
      | (Inl e, st') \<Rightarrow>
          (notebook_file, Inl e) #
            batch_outcomes lib self input_dir output_dir rest
              (print (FailedToConvert notebook_file e) st'))"

text \<open>
  The paths of the successful outcomes, the notebooks and exceptions of the failed ones,
  and the failures reported among printed lines.
\<close>

fun successes :: "(path \<times> (error + path)) list \<Rightarrow> path list" where
  "successes [] = []"
| "successes ((f, Inr p) # os) = p # successes os"
| "successes ((f, Inl e) # os) = successes os"

fun failures :: "(path \<times> (error + path)) list \<Rightarrow> (path \<times> error) list" where
  "failures [] = []"
| "failures ((f, Inr p) # os) = failures os"
| "failures ((f, Inl e) # os) = (f, e) # failures os"

fun failure_lines :: "event list \<Rightarrow> (path \<times> error) list" where
  "failure_lines [] = []"
| "failure_lines (FailedToConvert f e # evs) = (f, e) # failure_lines evs"
| "failure_lines (_ # evs) = failure_lines evs"

text \<open>\<open>quiet st st'\<close>: no failure has been reported between the two states.\<close>

definition quiet :: "state \<Rightarrow> state \<Rightarrow> bool" where
  "quiet st st' \<longleftrightarrow> failure_lines (printed st') = failure_lines (printed st)"

text \<open>
  \<open>grows fs fs'\<close>: every directory of \<open>fs\<close> is a directory of \<open>fs'\<close> and every regular
  file of \<open>fs\<close> is a regular file of \<open>fs'\<close> (its content may differ). The converter
  never removes an entry and never changes the kind of one.
\<close>

definition grows :: "filesystem \<Rightarrow> filesystem \<Rightarrow> bool" where
  "grows fs fs' \<longleftrightarrow> (\<forall>q. (is_dir fs q \<longrightarrow> is_dir fs' q) \<and> (is_file fs q \<longrightarrow> is_file fs' q))"

subsection \<open>A concrete library and file system for the examples\<close>

text \<open>
  A stand-in for the libraries: a notebook is its text, only \<open>{}\<close> parses, execution
  always fails, and an export without embedding yields one image resource.
\<close>

definition sample_library :: "(string, string) library" where
  "sample_library =
     \<lparr>nbformat_read = (\<lambda>c. if c = ''{}'' then Inr c else Inl ''NotJSONError''),
      preprocess = (\<lambda>nb p. (Some ''DeadKernelError'', nb)),
      from_notebook_node = (\<lambda>e nb. Inr (''<html>'' @ nb @ ''</html>'',
         \<lparr>outputs = (if exporter_embed_images e then [] else [(''output_0_0.png'', ''PNG'')])\<rparr>)),
      soup_parse = (\<lambda>s. s),
      soup_head = (\<lambda>s. False),
      soup_head_insert = (\<lambda>s i t. t @ s),
      soup_str = (\<lambda>s. s)\<rparr>"

definition sample_files :: filesystem where
  "sample_files =
     [([''work''], Dir),
      ([''work'', ''a.ipynb''], File ''{}''),
      ([''work'', ''notes.txt''], File ''hello''),
      ([''work'', ''broken.ipynb''], File ''oops''),
      ([''work'', ''sub''], Dir),
      ([''work'', ''sub'', ''B.IPYNB''], File ''{}''),
      ([''work'', ''sub'', ''c.ipynb''], File ''{}'')]"

definition sample_state :: state where
  "sample_state = \<lparr>files = sample_files, printed = []\<rparr>"

section \<open>Properties of paths and of the file system\<close>

subsection \<open>Paths\<close>

lemma rfind_append:
  "rfind c t = Some i \<Longrightarrow> rfind c (s @ t) = Some (length s + i)"
  by (induction s) auto

lemma rfind_Some_nth: "rfind c s = Some i \<Longrightarrow> i < length s \<and> s ! i = c"
  by (induction s arbitrary: i) (auto split: option.splits if_splits)

lemma name_stem_suffix: "name_stem n @ name_suffix n = n"
  by (auto simp: name_stem_def name_suffix_def split: option.splits)

lemma name_suffix_hd: "name_suffix n \<noteq> [] \<Longrightarrow> hd (name_suffix n) = CHR ''.''"
  by (auto simp: name_suffix_def hd_drop_conv_nth split: option.splits if_splits
      dest!: rfind_Some_nth)

lemma name_stem_nonempty: "n \<noteq> [] \<Longrightarrow> name_stem n \<noteq> []"
  by (auto simp: name_stem_def split: option.splits)

lemma stem_suffix_name: "stem p @ path_suffix p = name p"
  by (simp add: stem_def path_suffix_def name_stem_suffix)

lemma with_suffix_html:
  assumes "name p \<noteq> []"
  shows "with_suffix p ''.html'' = Inr (parent p @ [stem p @ ''.html''])"
proof -
  have "take (length (name p) - length (path_suffix p)) (name p) = stem p"
    using stem_suffix_name[of p]
    by (metis append_eq_conv_conj length_append add_diff_cancel_right')
  moreover have "path_suffix p = [] \<Longrightarrow> name p = stem p"
    using stem_suffix_name[of p] by simp
  ultimately show ?thesis using assms by (auto simp add: with_suffix_def Let_def)
qed

lemma ipynb_name: "lower (path_suffix p) = ''.ipynb'' \<Longrightarrow> name p \<noteq> []"
  by (auto simp: lower_def path_suffix_def name_suffix_def)

lemma path_split: "p \<noteq> [] \<Longrightarrow> parent p @ [name p] = p"
  by (simp add: parent_def name_def)

lemma side_car_neq: "parent p @ [stem p @ ''_files''] \<noteq> p"
proof
  assume eq: "parent p @ [stem p @ ''_files''] = p"
  then have ne: "p \<noteq> []" by auto
  with eq have "stem p @ ''_files'' = name p"
    by (metis path_split append1_eq_conv)
  then have "path_suffix p = ''_files''"
    using stem_suffix_name[of p] by (metis same_append_eq)
  then show False
    using name_suffix_hd[of "name p"] by (simp add: path_suffix_def)
qed

lemma html_neq:
  assumes "lower (path_suffix p) = ''.ipynb''"
  shows "parent p @ [stem p @ ''.html''] \<noteq> p"
proof
  assume eq: "parent p @ [stem p @ ''.html''] = p"
  then have ne: "p \<noteq> []" by auto
  with eq have "stem p @ ''.html'' = name p"
    by (metis path_split append1_eq_conv)
  then have "path_suffix p = ''.html''"
    using stem_suffix_name[of p] by (metis same_append_eq)
  with assms have "lower ''.html'' = ''.ipynb''" by simp
  then show False by (simp add: lower_def)
qed

subsection \<open>The file system operations\<close>

lemma lookup_update:
  "p \<noteq> [] \<Longrightarrow> lookup (AList.update p v fs) q = (if q = p then Some v else lookup fs q)"
  by (simp add: lookup_def update_conv')

lemma is_dir_root [simp]: "is_dir fs []"
  by (simp add: is_dir_def lookup_def)

lemma parent_error_None: "parent_error fs p = None \<longleftrightarrow> is_dir fs (parent p)"
  by (auto simp: parent_error_def is_dir_def split: option.splits node.splits)

lemma open_write_Inr:
  "open_write fs p c = Inr fs' \<longleftrightarrow>
     p \<noteq> [] \<and> \<not> is_dir fs p \<and> is_dir fs (parent p) \<and> fs' = AList.update p (File c) fs"
  using parent_error_None[of fs p]
  by (cases "p = []") (auto simp: open_write_def split: option.splits)

lemma open_write_Inl:
  "open_write fs p c = Inl e \<Longrightarrow> e \<in> {IsADirectoryError, NotADirectoryError, FileNotFoundError}"
  by (auto simp: open_write_def parent_error_def split: option.splits node.splits if_splits)

lemma mkdir_plain:
  "mkdir False True p fs =
     (if is_dir fs p then (None, fs)
      else if path_exists fs p then (Some FileExistsError, fs)
      else case parent_error fs p of
             None \<Rightarrow> (None, AList.update p Dir fs)
           | Some e \<Rightarrow> (Some e, fs))"
  by (subst mkdir.simps)
     (auto simp: os_mkdir_def is_dir_def path_exists_def parent_error_def
           split: option.splits node.splits)

lemma os_mkdir_Inr:
  "os_mkdir fs p = Inr fs' \<longleftrightarrow>
     p \<noteq> [] \<and> \<not> path_exists fs p \<and> is_dir fs (parent p) \<and> fs' = AList.update p Dir fs"
  using parent_error_None[of fs p]
  by (cases "p = []") (auto simp: os_mkdir_def path_exists_def lookup_def split: option.splits)

lemma os_mkdir_Inl:
  "os_mkdir fs p = Inl e \<Longrightarrow> e \<in> {FileExistsError, NotADirectoryError, FileNotFoundError}"
  by (auto simp: os_mkdir_def parent_error_def split: option.splits node.splits if_splits)

lemma mkdir_error:
  "mkdir pa ex p fs = (Some e, fs') \<Longrightarrow> e \<in> {FileExistsError, NotADirectoryError, FileNotFoundError}"
proof (induction pa ex p fs arbitrary: e fs' rule: mkdir.induct)
  case (1 parents exist_ok p fs)
  show ?case
  proof (cases "os_mkdir fs p")
    case (Inr fs1)
    with "1.prems" show ?thesis by (subst (asm) mkdir.simps) simp
  next
    case (Inl e1)
    note e1 = os_mkdir_Inl[OF Inl]
    show ?thesis
    proof (cases "e1 = FileNotFoundError \<and> \<not> (\<not> parents \<or> parent p = p)")
      case False
      with "1.prems" Inl e1 show ?thesis
        by (subst (asm) mkdir.simps) (auto split: if_splits)
    next
      case True
      obtain r fs1 where par: "mkdir True True (parent p) fs = (r, fs1)" by force
      show ?thesis
      proof (cases r)
        case None
        with "1.prems" Inl True par have "mkdir False exist_ok p fs1 = (Some e, fs')"
          by (subst (asm) mkdir.simps) simp
        with "1.IH"(2)[OF Inl _ _ _ _ this] True par None show ?thesis by simp
      next
        case (Some e2)
        with "1.prems" Inl True par have "e = e2"
          by (subst (asm) mkdir.simps) simp
        with "1.IH"(1)[OF Inl _ _, of e2 fs1] True par Some show ?thesis by simp
      qed
    qed
  qed
qed

lemma only_new_dirs_refl: "only_new_dirs fs fs p"
  by (simp add: only_new_dirs_def)

lemma only_new_dirs_trans:
  "only_new_dirs fs fs1 (parent p) \<Longrightarrow> only_new_dirs fs1 fs2 p \<Longrightarrow> only_new_dirs fs fs2 p"
  unfolding only_new_dirs_def parent_def
  by (metis prefix_order.trans prefixeq_butlast option.distinct(1))

lemma only_new_dirs_update:
  "p \<noteq> [] \<Longrightarrow> \<not> path_exists fs p \<Longrightarrow> only_new_dirs fs (AList.update p Dir fs) p"
  by (auto simp: only_new_dirs_def lookup_update path_exists_def)

lemma mkdir_success:
  "mkdir pa ex p fs = (None, fs') \<Longrightarrow> is_dir fs' p \<and> only_new_dirs fs fs' p"
proof (induction pa ex p fs arbitrary: fs' rule: mkdir.induct)
  case (1 parents exist_ok p fs)
  show ?case
  proof (cases "os_mkdir fs p")
    case (Inr fs1)
    with "1.prems" have "fs' = fs1" by (subst (asm) mkdir.simps) simp
    with Inr show ?thesis
      by (auto simp: os_mkdir_Inr is_dir_def lookup_update only_new_dirs_update)
  next
    case (Inl e1)
    show ?thesis
    proof (cases "e1 = FileNotFoundError \<and> \<not> (\<not> parents \<or> parent p = p)")
      case False
      with "1.prems" Inl show ?thesis
        by (subst (asm) mkdir.simps) (auto split: if_splits simp: only_new_dirs_refl)
    next
      case True
      obtain r fs1 where par: "mkdir True True (parent p) fs = (r, fs1)" by force
      show ?thesis
      proof (cases r)
        case None
        with "1.prems" Inl True par have step: "mkdir False exist_ok p fs1 = (None, fs')"
          by (subst (asm) mkdir.simps) simp
        have a: "only_new_dirs fs fs1 (parent p)"
          using "1.IH"(1)[OF Inl _ _, of fs1] True par None by simp
        have b: "is_dir fs' p \<and> only_new_dirs fs1 fs' p"
          using "1.IH"(2)[OF Inl _ _ _ _ step] True par None by simp
        from a b show ?thesis by (auto intro: only_new_dirs_trans)
      next
        case (Some e2)
        with "1.prems" Inl True par show ?thesis
          by (subst (asm) mkdir.simps) simp
      qed
    qed
  qed
qed

lemma mkdir_keeps:
  assumes "mkdir pa ex p fs = (None, fs')" "lookup fs q \<noteq> None"
  shows "lookup fs' q = lookup fs q"
  using mkdir_success[OF assms(1)] assms(2) by (auto simp: only_new_dirs_def)

lemma mkdir_frame:
  assumes "mkdir pa ex p fs = (None, fs')" "\<not> prefix q p"
  shows "lookup fs' q = lookup fs q"
  using mkdir_success[OF assms(1)] assms(2) by (auto simp: only_new_dirs_def)

text \<open>mkdir -p succeeds when no regular file is in the way.\<close>

lemma parent_error_clear:
  assumes "\<forall>q. prefix q p \<longrightarrow> \<not> is_file fs q" "\<not> is_dir fs (parent p)"
  shows "parent_error fs p = Some FileNotFoundError"
proof -
  have "prefix (parent p) p" by (simp add: parent_def prefixeq_butlast)
  with assms have "lookup fs (parent p) = None"
    by (cases "lookup fs (parent p)") (auto simp: is_file_def is_dir_def split: node.splits)
  moreover have "\<not> list_ex (is_file fs) (prefixes (parent p))"
    using assms(1) \<open>prefix (parent p) p\<close>
    by (auto simp: list_ex_iff in_set_prefixes dest: prefix_order.trans)
  ultimately show ?thesis by (simp add: parent_error_def)
qed

lemma mkdir_parents_total:
  "(\<forall>q. prefix q p \<longrightarrow> \<not> is_file fs q) \<Longrightarrow> \<exists>fs'. mkdir True True p fs = (None, fs')"
proof (induction p arbitrary: fs rule: rev_induct)
  case Nil
  show ?case by (subst mkdir.simps) (simp add: os_mkdir_def path_exists_def lookup_def)
next
  case (snoc c p)
  let ?p = "p @ [c]"
  have par: "parent ?p = p" by (simp add: parent_def)
  show ?case
  proof (cases "path_exists fs ?p")
    case True
    with snoc.prems have "is_dir fs ?p"
      by (cases "lookup fs ?p")
         (auto simp: path_exists_def is_dir_def is_file_def split: node.splits)
    with True show ?thesis by (subst mkdir.simps) (simp add: os_mkdir_def)
  next
    case False
    show ?thesis
    proof (cases "is_dir fs p")
      case True
      with False have "os_mkdir fs ?p = Inr (AList.update ?p Dir fs)"
        by (simp add: os_mkdir_Inr par)
      then show ?thesis by (subst mkdir.simps) simp
    next
      case nd: False
      have pe: "parent_error fs ?p = Some FileNotFoundError"
        using parent_error_clear[of ?p fs] snoc.prems nd by (simp add: par)
      with False have om: "os_mkdir fs ?p = Inl FileNotFoundError"
        by (simp add: os_mkdir_def)
      have "\<forall>q. prefix q p \<longrightarrow> \<not> is_file fs q"
        using snoc.prems by (auto dest: prefix_order.trans)
      from snoc.IH[OF this] obtain fs1 where m1: "mkdir True True p fs = (None, fs1)" by blast
      from mkdir_success[OF m1] have d1: "is_dir fs1 p" and n1: "only_new_dirs fs fs1 p" by auto
      have "\<not> prefix ?p p" by (simp add: prefix_def)
      with n1 False have ne1: "\<not> path_exists fs1 ?p"
        unfolding only_new_dirs_def path_exists_def by metis
      then have nd1: "\<not> is_dir fs1 ?p" by (simp add: is_dir_def path_exists_def)
      have "mkdir False True ?p fs1 = (None, AList.update ?p Dir fs1)"
        using ne1 nd1 d1 parent_error_None[of fs1 ?p] by (simp add: mkdir_plain par)
      with om m1 show ?thesis by (subst mkdir.simps) (simp add: par)
    qed
  qed
qed

text \<open>write_outputs\<close>

lemma write_outputs_success:
  "write_outputs d rs fs = (None, fs') \<Longrightarrow>
     (\<forall>q. q \<notin> (\<lambda>k. d @ [k]) ` fst ` set rs \<longrightarrow> lookup fs' q = lookup fs q) \<and>
     (\<forall>k \<in> fst ` set rs. is_file fs' (d @ [k])) \<and>
     (\<forall>q. is_dir fs q \<longrightarrow> is_dir fs' q)"
proof (induction rs arbitrary: fs)
  case Nil
  then show ?case by simp
next
  case (Cons r rs)
  obtain k v where r: "r = (k, v)" by (cases r)
  from Cons.prems r obtain fs1 where w: "open_write fs (d @ [k]) v = Inr fs1"
    and rest: "write_outputs d rs fs1 = (None, fs')"
    by (auto split: sum.splits)
  from w have fs1: "fs1 = AList.update (d @ [k]) (File v) fs" and nd: "\<not> is_dir fs (d @ [k])"
    by (auto simp: open_write_Inr)
  have l1: "\<And>q. lookup fs1 q = (if q = d @ [k] then Some (File v) else lookup fs q)"
    by (simp add: fs1 lookup_update)
  note IH = Cons.IH[OF rest]
  have "is_file fs' (d @ [k])"
  proof (cases "k \<in> fst ` set rs")
    case True
    with IH show ?thesis by blast
  next
    case False
    then have "d @ [k] \<notin> (\<lambda>k. d @ [k]) ` fst ` set rs" by auto
    with IH have "lookup fs' (d @ [k]) = lookup fs1 (d @ [k])" by blast
    then show ?thesis by (simp add: l1 is_file_def)
  qed
  moreover have "\<And>q. is_dir fs q \<Longrightarrow> is_dir fs' q"
  proof -
    fix q assume "is_dir fs q"
    with nd have "is_dir fs1 q" by (auto simp: is_dir_def l1)
    with IH show "is_dir fs' q" by blast
  qed
  ultimately show ?case using IH r by (auto simp: l1)
qed

lemma write_outputs_values:
  assumes "write_outputs d rs fs = (None, fs')" "distinct (map fst rs)" "(k, v) \<in> set rs"
  shows "lookup fs' (d @ [k]) = Some (File v)"
  using assms
proof (induction rs arbitrary: fs)
  case Nil
  then show ?case by simp
next
  case (Cons r rs)
  obtain k0 v0 where r: "r = (k0, v0)" by (cases r)
  from Cons.prems(1) r obtain fs1 where w: "open_write fs (d @ [k0]) v0 = Inr fs1"
    and rest: "write_outputs d rs fs1 = (None, fs')"
    by (auto split: sum.splits)
  show ?case
  proof (cases "(k, v) \<in> set rs")
    case True
    with Cons.IH[OF rest] Cons.prems(2) show ?thesis by simp
  next
    case False
    with Cons.prems(3) r have kv: "k = k0" "v = v0" by auto
    with Cons.prems(2) r have "k \<notin> fst ` set rs" by auto
    then have "d @ [k] \<notin> (\<lambda>k. d @ [k]) ` fst ` set rs" by auto
    with write_outputs_success[OF rest] have "lookup fs' (d @ [k]) = lookup fs1 (d @ [k])"
      by blast
    with w kv show ?thesis by (simp add: open_write_Inr lookup_update)
  qed
qed

lemma write_outputs_total:
  "is_dir fs d \<Longrightarrow> \<forall>k \<in> fst ` set rs. \<not> is_dir fs (d @ [k]) \<Longrightarrow>
     \<exists>fs'. write_outputs d rs fs = (None, fs')"
proof (induction rs arbitrary: fs)
  case Nil
  then show ?case by simp
next
  case (Cons r rs)
  obtain k v where r: "r = (k, v)" by (cases r)
  let ?fs1 = "AList.update (d @ [k]) (File v) fs"
  have w: "open_write fs (d @ [k]) v = Inr ?fs1"
    using Cons.prems r by (simp add: open_write_Inr parent_def)
  have l1: "\<And>q. lookup ?fs1 q = (if q = d @ [k] then Some (File v) else lookup fs q)"
    by (simp add: lookup_update)
  have "is_dir ?fs1 d" using Cons.prems(1) by (simp add: is_dir_def l1)
  moreover have "\<forall>k \<in> fst ` set rs. \<not> is_dir ?fs1 (d @ [k])"
    using Cons.prems(2) by (auto simp: is_dir_def l1)
  ultimately obtain fs' where "write_outputs d rs ?fs1 = (None, fs')"
    using Cons.IH by blast
  with w r show ?case by simp
qed

lemma write_outputs_error:
  "write_outputs d rs fs = (Some e, fs') \<Longrightarrow>
     e \<in> {IsADirectoryError, NotADirectoryError, FileNotFoundError}"
  by (induction rs arbitrary: fs) (auto split: sum.splits dest: open_write_Inl)

subsection \<open>Loading and the try block of the single conversion\<close>

lemma files_print [simp]: "files (print e st) = files st"
  by (simp add: print_def)

lemma printed_print [simp]: "printed (print e st) = printed st @ [e]"
  by (simp add: print_def)

lemma read_notebook_print [simp]: "read_notebook lib p (print e st) = read_notebook lib p st"
  by (simp add: read_notebook_def)

lemma read_notebook_Inr:
  "read_notebook lib p st = Inr nb \<longleftrightarrow>
     (\<exists>content. lookup (files st) p = Some (File content) \<and> nbformat_read lib content = Inr nb)"
  by (auto simp: read_notebook_def open_read_def split: option.splits node.splits sum.splits)

lemma read_notebook_Inl:
  "read_notebook lib p st = Inl e \<Longrightarrow> e \<noteq> ValueError"
  by (auto simp: read_notebook_def open_read_def split: option.splits node.splits sum.splits)

lemma p_execute_notebook_ok:
  assumes "lookup (files st) p = Some (File content)" "nbformat_read lib content = Inr nb0"
  shows "\<exists>st1. p_execute_notebook lib p st = (Inr (snd (preprocess lib nb0 (parent p))), st1) \<and>
     files st1 = files st \<and>
     printed st1 = printed st @ Executing p #
        (case fst (preprocess lib nb0 (parent p)) of
           None \<Rightarrow> []
         | Some m \<Rightarrow> [ExecuteWarning m, Proceeding])"
proof -
  have r: "read_notebook lib p st = Inr nb0"
    using assms by (auto simp: read_notebook_Inr)
  obtain x nb' where pp: "preprocess lib nb0 (parent p) = (x, nb')" by force
  show ?thesis
    using r pp by (cases x) (simp_all add: p_execute_notebook_def Let_def)
qed

lemma load_notebook_ok:
  assumes "lookup (files st) p = Some (File content)" "nbformat_read lib content = Inr nb0"
  shows "\<exists>st1. load_notebook lib self p st =
       (Inr (if execute_notebook self then snd (preprocess lib nb0 (parent p)) else nb0), st1) \<and>
     files st1 = files st \<and>
     printed st1 = printed st @ load_lines lib self p nb0"
proof (cases "execute_notebook self")
  case True
  with p_execute_notebook_ok[OF assms] show ?thesis
    by (auto simp: load_notebook_def load_lines_def)
next
  case False
  with assms show ?thesis
    by (auto simp: load_notebook_def load_lines_def read_notebook_Inr)
qed

lemma p_execute_notebook_Inr:
  assumes "p_execute_notebook lib p st = (Inr nb, st1)"
  shows "\<exists>content nb0. lookup (files st) p = Some (File content) \<and>
     nbformat_read lib content = Inr nb0"
proof -
  from assms obtain nb0 where "read_notebook lib p st = Inr nb0"
    by (cases "read_notebook lib p st")
       (auto simp: p_execute_notebook_def Let_def)
  then show ?thesis by (auto simp: read_notebook_Inr)
qed

lemma load_notebook_Inr:
  assumes "load_notebook lib self p st = (Inr nb, st1)"
  shows "\<exists>content nb0. lookup (files st) p = Some (File content) \<and>
        nbformat_read lib content = Inr nb0 \<and>
        nb = (if execute_notebook self then snd (preprocess lib nb0 (parent p)) else nb0) \<and>
        files st1 = files st \<and>
        printed st1 = printed st @ load_lines lib self p nb0"
proof -
  have "\<exists>content nb0. lookup (files st) p = Some (File content) \<and>
     nbformat_read lib content = Inr nb0"
    using assms p_execute_notebook_Inr[of lib p st nb st1]
    by (auto simp: load_notebook_def read_notebook_Inr split: if_splits)
  then obtain content nb0 where c: "lookup (files st) p = Some (File content)"
    and n: "nbformat_read lib content = Inr nb0" by blast
  from load_notebook_ok[OF c n, of self] assms c n show ?thesis by auto
qed

lemma load_notebook_Inl:
  "load_notebook lib self p st = (Inl e, st1) \<Longrightarrow>
     e \<noteq> ValueError \<and> files st1 = files st \<and> prefix (printed st) (printed st1)"
  by (auto simp: load_notebook_def p_execute_notebook_def Let_def
      split: sum.splits prod.splits option.splits if_splits dest: read_notebook_Inl)

lemma try_Inr:
  assumes "convert_single_file_try lib self input out st = (Inr p, st')"
  shows "\<exists>nb st1 body res fs2 fs4.
    load_notebook lib self input st = (Inr nb, st1) \<and>
    from_notebook_node lib (html_exporter self) nb = Inr (body, res) \<and>
    open_write (files st) out (p_enhance_html_output lib body input) = Inr fs2 \<and>
    p = out \<and>
    st' = print (Converted out) (st1\<lparr>files := fs4\<rparr>) \<and>
    (if outputs res = [] then fs4 = fs2
     else \<exists>fs3. mkdir False True (parent out @ [stem out @ ''_files'']) fs2 = (None, fs3) \<and>
          write_outputs (parent out @ [stem out @ ''_files'']) (outputs res) fs3 = (None, fs4))"
proof -
  obtain r st1 where l: "load_notebook lib self input st = (r, st1)" by force
  with assms obtain nb where r: "r = Inr nb"
    by (cases r) (auto simp: convert_single_file_try_def)
  from l r have f1: "files st1 = files st" by (auto dest: load_notebook_Inr)
  from assms l r obtain body res where
    e: "from_notebook_node lib (html_exporter self) nb = Inr (body, res)"
    by (cases "from_notebook_node lib (html_exporter self) nb")
       (auto simp: convert_single_file_try_def)
  from assms l r e obtain fs2 where
    w: "open_write (files st) out (p_enhance_html_output lib body input) = Inr fs2"
    by (cases "open_write (files st) out (p_enhance_html_output lib body input)")
       (auto simp: convert_single_file_try_def f1)
  show ?thesis
  proof (cases "outputs res = []")
    case True
    with assms l r e w f1 show ?thesis
      by (auto simp: convert_single_file_try_def)
  next
    case False
    with assms l r e w f1 show ?thesis
      by (auto simp: convert_single_file_try_def Let_def split: prod.splits option.splits)
  qed
qed

lemma try_Inl:
  assumes "convert_single_file_try lib self input out st = (Inl e, st')"
  shows "e \<noteq> ValueError \<and> prefix (printed st) (printed st')"
proof -
  obtain r st1 where l: "load_notebook lib self input st = (r, st1)" by force
  show ?thesis
  proof (cases r)
    case (Inl e1)
    with assms l load_notebook_Inl[of lib self input st e1 st1] show ?thesis
      by (auto simp: convert_single_file_try_def)
  next
    case (Inr nb)
    with l have p1: "prefix (printed st) (printed st1)" and f1: "files st1 = files st"
      by (auto dest: load_notebook_Inr)
    show ?thesis
    proof (cases "from_notebook_node lib (html_exporter self) nb")
      case (Inl m)
      with assms l Inr p1 show ?thesis by (auto simp: convert_single_file_try_def)
    next
      case ex: (Inr br)
      obtain body res where br: "br = (body, res)" by (cases br)
      show ?thesis
      proof (cases "open_write (files st) out (p_enhance_html_output lib body input)")
        case (Inl e2)
        with assms l Inr ex br p1 f1 open_write_Inl[OF Inl] show ?thesis
          by (auto simp: convert_single_file_try_def)
      next
        case w: (Inr fs2)
        with assms l Inr ex br p1 f1 show ?thesis
          by (auto simp: convert_single_file_try_def Let_def
              split: if_splits prod.splits option.splits
              dest: mkdir_error write_outputs_error)
      qed
    qed
  qed
qed

lemma try_Inl_files:
  assumes "convert_single_file_try lib self input out st = (Inl e, st')"
    and "\<not> is_dir (files st) (parent out)"
  shows "files st' = files st"
proof -
  obtain r st1 where l: "load_notebook lib self input st = (r, st1)" by force
  show ?thesis
  proof (cases r)
    case (Inl e1)
    with assms l load_notebook_Inl[of lib self input st e1 st1] show ?thesis
      by (auto simp: convert_single_file_try_def)
  next
    case (Inr nb)
    with l have f1: "files st1 = files st"
      by (auto dest: load_notebook_Inr)
    show ?thesis
    proof (cases "from_notebook_node lib (html_exporter self) nb")
      case (Inl m)
      with assms l Inr f1 show ?thesis by (auto simp: convert_single_file_try_def)
    next
      case ex: (Inr br)
      obtain body res where br: "br = (body, res)" by (cases br)
      show ?thesis
      proof (cases "open_write (files st) out (p_enhance_html_output lib body input)")
        case (Inl e2)
        with assms l Inr ex br f1 show ?thesis
          by (auto simp: convert_single_file_try_def)
      next
        case w: (Inr fs2)
        with assms(2) show ?thesis by (simp add: open_write_Inr)
      qed
    qed
  qed
qed

subsection \<open>The effects of a single conversion\<close>

lemma mkdir_plain_success:
  assumes "mkdir False True p fs = (None, fs')"
  shows "is_dir fs' p" "q \<noteq> p \<Longrightarrow> lookup fs' q = lookup fs q"
    "is_dir fs q \<Longrightarrow> is_dir fs' q" "\<not> is_file fs p"
proof -
  have "is_dir fs' p \<and> (q \<noteq> p \<longrightarrow> lookup fs' q = lookup fs q) \<and>
      (is_dir fs q \<longrightarrow> is_dir fs' q) \<and> \<not> is_file fs p"
  proof (cases "is_dir fs p")
    case True
    with assms show ?thesis by (auto simp: mkdir_plain is_dir_def is_file_def)
  next
    case False
    with assms have ne: "\<not> path_exists fs p" and fs': "fs' = AList.update p Dir fs"
      by (auto simp: mkdir_plain split: if_splits option.splits)
    from ne have "p \<noteq> []" by (auto simp: path_exists_def lookup_def)
    with ne fs' show ?thesis
      by (auto simp: is_dir_def is_file_def path_exists_def lookup_update)
  qed
  then show "is_dir fs' p" "q \<noteq> p \<Longrightarrow> lookup fs' q = lookup fs q"
    "is_dir fs q \<Longrightarrow> is_dir fs' q" "\<not> is_file fs p" by simp_all
qed

lemma write_outputs_frame:
  "write_outputs d rs fs = (None, fs') \<Longrightarrow> q \<notin> (\<lambda>k. d @ [k]) ` fst ` set rs \<Longrightarrow>
     lookup fs' q = lookup fs q"
  using write_outputs_success[of d rs fs fs'] by blast

lemma write_outputs_dirs:
  "write_outputs d rs fs = (None, fs') \<Longrightarrow> is_dir fs q \<Longrightarrow> is_dir fs' q"
  using write_outputs_success[of d rs fs fs'] by blast

lemma mkdir_plain_total:
  assumes "\<not> is_file fs p" "is_dir fs (parent p)"
  shows "\<exists>fs'. mkdir False True p fs = (None, fs')"
proof (cases "is_dir fs p")
  case True
  then show ?thesis by (simp add: mkdir_plain)
next
  case False
  with assms(1) have "\<not> path_exists fs p"
    by (cases "lookup fs p") (auto simp: is_dir_def is_file_def path_exists_def split: node.splits)
  with False assms(2) parent_error_None[of fs p] show ?thesis by (simp add: mkdir_plain)
qed

text \<open>The value a resource path ends with is the last payload written under its name.\<close>

lemma write_outputs_lookup:
  "write_outputs d rs fs = (None, fs') \<Longrightarrow>
     lookup fs' (d @ [k]) =
       (case map_of (rev rs) k of Some v \<Rightarrow> Some (File v) | None \<Rightarrow> lookup fs (d @ [k]))"
proof (induction rs arbitrary: fs)
  case Nil
  then show ?case by simp
next
  case (Cons r rs)
  obtain k0 v0 where r: "r = (k0, v0)" by (cases r)
  from Cons.prems r obtain fs1 where w: "open_write fs (d @ [k0]) v0 = Inr fs1"
    and rest: "write_outputs d rs fs1 = (None, fs')"
    by (auto split: sum.splits)
  have l1: "lookup fs1 (d @ [k]) = (if k = k0 then Some (File v0) else lookup fs (d @ [k]))"
    using w by (auto simp: open_write_Inr lookup_update)
  show ?case
    unfolding Cons.IH[OF rest] l1 r
    by (auto simp: map_add_def split: option.splits)
qed

lemma parent_shorter: "out \<noteq> [] \<Longrightarrow> length (parent out) < length out"
  by (simp add: parent_def)

lemma out_not_resource:
  assumes "out \<noteq> []"
  shows "(parent out @ [x]) @ [k] \<noteq> out"
proof
  assume "(parent out @ [x]) @ [k] = out"
  then have "length out = length (parent out) + 2"
    by (metis length_append_singleton add_2_eq_Suc')
  with assms show False by (simp add: parent_def)
qed

lemma parent_not_written:
  assumes "out \<noteq> []"
  shows "parent out \<noteq> out \<and> parent out \<noteq> parent out @ [x] \<and>
     parent out \<noteq> (parent out @ [x]) @ [k]"
  using parent_shorter[OF assms] by auto

lemma side_car_facts:
  assumes "out \<noteq> []"
  shows "side_car out \<noteq> out" "side_car out @ [k] \<noteq> out" "parent (side_car out) = parent out"
    "parent out \<noteq> out" "parent out \<noteq> side_car out" "parent out \<noteq> side_car out @ [k]"
    "parent (side_car out @ [k]) = side_car out" "side_car out @ [k] \<noteq> side_car out"
  using side_car_neq[of out] out_not_resource[OF assms] parent_not_written[OF assms]
  by (simp_all add: side_car_def parent_def butlast_append)

text \<open>When the try block succeeds.\<close>

lemma try_total:
  assumes c: "lookup (files st) input = Some (File content)"
    and n: "nbformat_read lib content = Inr nb0"
    and e: "from_notebook_node lib (html_exporter self)
              (if execute_notebook self then snd (preprocess lib nb0 (parent input)) else nb0)
            = Inr (body, res)"
    and o1: "\<not> is_dir (files st) out"
    and o2: "is_dir (files st) (parent out)"
    and s1: "outputs res \<noteq> [] \<Longrightarrow> \<not> is_file (files st) (side_car out)"
    and s2: "outputs res \<noteq> [] \<Longrightarrow>
      \<forall>k \<in> fst ` set (outputs res). \<not> is_dir (files st) (side_car out @ [k])"
  shows "\<exists>st'. convert_single_file_try lib self input out st = (Inr out, st')"
proof -
  let ?side = "side_car out"
  let ?html = "p_enhance_html_output lib body input"
  let ?fs2 = "AList.update out (File ?html) (files st)"
  from o1 have ne: "out \<noteq> []" by auto
  note sf = side_car_facts[OF ne]
  from load_notebook_ok[OF c n, of self] obtain st1 where
    l: "load_notebook lib self input st =
       (Inr (if execute_notebook self then snd (preprocess lib nb0 (parent input)) else nb0), st1)"
    and f1: "files st1 = files st" by blast
  have w: "open_write (files st) out ?html = Inr ?fs2"
    using ne o1 o2 by (simp add: open_write_Inr)
  have l2: "\<And>q. q \<noteq> out \<Longrightarrow> lookup ?fs2 q = lookup (files st) q"
    using ne by (simp add: lookup_update)
  show ?thesis
  proof (cases "outputs res = []")
    case True
    with l e w f1 show ?thesis
      by (simp add: convert_single_file_try_def)
  next
    case False
    have "\<not> is_file ?fs2 ?side"
      using s1[OF False] sf(1) by (simp add: is_file_def l2)
    moreover have "is_dir ?fs2 (parent ?side)"
      using o2 sf(3,4) by (simp add: is_dir_def l2)
    ultimately obtain fs3 where m: "mkdir False True ?side ?fs2 = (None, fs3)"
      using mkdir_plain_total by blast
    note m3 = mkdir_plain_success[OF m]
    have sd: "is_dir fs3 ?side" by (rule m3(1))
    have "\<forall>k \<in> fst ` set (outputs res). \<not> is_dir fs3 (?side @ [k])"
    proof
      fix k assume k: "k \<in> fst ` set (outputs res)"
      have "lookup fs3 (?side @ [k]) = lookup ?fs2 (?side @ [k])" using sf(8) by (rule m3(2))
      also have "\<dots> = lookup (files st) (?side @ [k])"
        using sf(2) by (rule l2)
      finally have "lookup fs3 (?side @ [k]) = lookup (files st) (?side @ [k])" .
      moreover have "\<not> is_dir (files st) (?side @ [k])"
        using s2[OF False] k by blast
      ultimately show "\<not> is_dir fs3 (?side @ [k])"
        by (simp add: is_dir_def)
    qed
    with sd obtain fs4 where wo: "write_outputs ?side (outputs res) fs3 = (None, fs4)"
      using write_outputs_total[of fs3 ?side "outputs res"] by blast
    with l e w f1 m False show ?thesis
      by (simp add: convert_single_file_try_def Let_def side_car_def)
  qed
qed

text \<open>What a successful try block has read.\<close>

lemma try_valid:
  assumes t: "convert_single_file_try lib self input out st = (Inr p, st')"
  shows "\<exists>content nb0 body res.
     lookup (files st) input = Some (File content) \<and>
     nbformat_read lib content = Inr nb0 \<and>
     from_notebook_node lib (html_exporter self)
       (if execute_notebook self then snd (preprocess lib nb0 (parent input)) else nb0)
       = Inr (body, res)"
proof -
  from try_Inr[OF t] obtain nb st1 body res where
    l: "load_notebook lib self input st = (Inr nb, st1)"
    and e: "from_notebook_node lib (html_exporter self) nb = Inr (body, res)"
    by blast
  from load_notebook_Inr[OF l] e show ?thesis by blast
qed

text \<open>What a successful try block has done.\<close>

lemma try_effects:
  assumes t: "convert_single_file_try lib self input out st = (Inr p, st')"
    and c: "lookup (files st) input = Some (File content)"
    and n: "nbformat_read lib content = Inr nb0"
    and e: "from_notebook_node lib (html_exporter self)
              (if execute_notebook self then snd (preprocess lib nb0 (parent input)) else nb0)
            = Inr (body, res)"
  shows "p = out" "out \<noteq> []" "\<not> is_dir (files st) out" "is_dir (files st) (parent out)"
    "is_dir (files st') (parent out)"
    "printed st' = printed st @ load_lines lib self input nb0 @ [Converted out]"
    "lookup (files st') out = Some (File (p_enhance_html_output lib body input))"
    "outputs res = [] \<Longrightarrow> q \<noteq> out \<Longrightarrow> lookup (files st') q = lookup (files st) q"
    "outputs res \<noteq> [] \<Longrightarrow> is_dir (files st') (side_car out)"
    "outputs res \<noteq> [] \<Longrightarrow> \<not> is_file (files st) (side_car out)"
    "outputs res \<noteq> [] \<Longrightarrow> lookup (files st') (side_car out @ [k]) =
           (case map_of (rev (outputs res)) k of
              Some v \<Rightarrow> Some (File v)
            | None \<Rightarrow> lookup (files st) (side_car out @ [k]))"
    "outputs res \<noteq> [] \<Longrightarrow> q \<noteq> out \<Longrightarrow> q \<noteq> side_car out \<Longrightarrow>
        q \<notin> (\<lambda>k. side_car out @ [k]) ` fst ` set (outputs res) \<Longrightarrow>
        lookup (files st') q = lookup (files st) q"
proof -
  let ?side = "side_car out"
  let ?html = "p_enhance_html_output lib body input"
  from try_Inr[OF t] obtain nb st1 body' res' fs2 fs4 where
    l: "load_notebook lib self input st = (Inr nb, st1)"
    and e': "from_notebook_node lib (html_exporter self) nb = Inr (body', res')"
    and w': "open_write (files st) out (p_enhance_html_output lib body' input) = Inr fs2"
    and p: "p = out"
    and st': "st' = print (Converted out) (st1\<lparr>files := fs4\<rparr>)"
    and r': "if outputs res' = [] then fs4 = fs2
      else \<exists>fs3. mkdir False True ?side fs2 = (None, fs3) \<and>
          write_outputs ?side (outputs res') fs3 = (None, fs4)"
    unfolding side_car_def by blast
  from load_notebook_Inr[OF l] c n have
    nb: "nb = (if execute_notebook self then snd (preprocess lib nb0 (parent input)) else nb0)"
    and p1: "printed st1 = printed st @ load_lines lib self input nb0" by auto
  from e e' nb have same: "body' = body" "res' = res" by simp_all
  note w = w'[unfolded same] and r = r'[unfolded same]
  from w have ne: "out \<noteq> []" and o1: "\<not> is_dir (files st) out"
    and o2: "is_dir (files st) (parent out)"
    and fs2: "fs2 = AList.update out (File ?html) (files st)"
    by (auto simp: open_write_Inr)
  note sf = side_car_facts[OF ne]
  have l2: "\<And>q. q \<noteq> out \<Longrightarrow> lookup fs2 q = lookup (files st) q"
    and l2o: "lookup fs2 out = Some (File ?html)"
    using ne by (simp_all add: fs2 lookup_update)
  have f': "files st' = fs4" and pr: "printed st' = printed st1 @ [Converted out]"
    by (simp_all add: st')
  have d2: "is_dir fs2 (parent out)"
    using o2 sf(4) by (simp add: is_dir_def l2)
  show "p = out" by (rule p)
  show "out \<noteq> []" by (rule ne)
  show "\<not> is_dir (files st) out" by (rule o1)
  show "is_dir (files st) (parent out)" by (rule o2)
  show "printed st' = printed st @ load_lines lib self input nb0 @ [Converted out]"
    by (simp add: pr p1)
  {
    assume emp: "outputs res = []"
    with r have 4: "fs4 = fs2" by simp
    show "q \<noteq> out \<Longrightarrow> lookup (files st') q = lookup (files st) q"
      by (simp add: f' 4 l2)
  }
  {
    assume "outputs res \<noteq> []"
    with r obtain fs3 where m: "mkdir False True ?side fs2 = (None, fs3)"
      and wo: "write_outputs ?side (outputs res) fs3 = (None, fs4)" by auto
    note m3 = mkdir_plain_success[OF m]
    show "is_dir (files st') ?side"
      unfolding f' using wo m3(1) by (rule write_outputs_dirs)
    show "\<not> is_file (files st) ?side"
      using m3(4) sf(1) by (simp add: is_file_def l2)
    have "lookup fs3 (?side @ [k]) = lookup fs2 (?side @ [k])" using sf(8) by (rule m3(2))
    also have "\<dots> = lookup (files st) (?side @ [k])"
      using sf(2) by (rule l2)
    finally show "lookup (files st') (?side @ [k]) =
           (case map_of (rev (outputs res)) k of
              Some v \<Rightarrow> Some (File v)
            | None \<Rightarrow> lookup (files st) (?side @ [k]))"
      by (simp add: f' write_outputs_lookup[OF wo] split: option.splits)
    assume q: "q \<noteq> out" "q \<noteq> ?side"
      "q \<notin> (\<lambda>k. ?side @ [k]) ` fst ` set (outputs res)"
    have "lookup fs4 q = lookup fs3 q" using wo q(3) by (rule write_outputs_frame)
    also have "\<dots> = lookup fs2 q" using q(2) by (rule m3(2))
    also have "\<dots> = lookup (files st) q" using q(1) by (rule l2)
    finally show "lookup (files st') q = lookup (files st) q" by (simp add: f')
  }
  show "lookup (files st') out = Some (File ?html)"
  proof (cases "outputs res = []")
    case True
    with r show ?thesis by (simp add: f' l2o)
  next
    case False
    with r obtain fs3 where m: "mkdir False True ?side fs2 = (None, fs3)"
      and wo: "write_outputs ?side (outputs res) fs3 = (None, fs4)" by auto
    have "out \<notin> (\<lambda>k. ?side @ [k]) ` fst ` set (outputs res)"
    proof
      assume "out \<in> (\<lambda>k. ?side @ [k]) ` fst ` set (outputs res)"
      then obtain k where "out = ?side @ [k]" by (rule imageE)
      then show False using sf(2)[of k] by simp
    qed
    with wo have "lookup fs4 out = lookup fs3 out" by (rule write_outputs_frame)
    also have "\<dots> = lookup fs2 out" using sf(1)[symmetric] by (rule mkdir_plain_success(2)[OF m])
    finally show ?thesis by (simp add: f' l2o)
  qed
  show "is_dir (files st') (parent out)"
  proof (cases "outputs res = []")
    case True
    with r d2 show ?thesis by (simp add: f')
  next
    case False
    with r obtain fs3 where m: "mkdir False True ?side fs2 = (None, fs3)"
      and wo: "write_outputs ?side (outputs res) fs3 = (None, fs4)" by auto
    have "is_dir fs3 (parent out)" using d2 by (rule mkdir_plain_success(3)[OF m])
    with wo show ?thesis unfolding f' by (rule write_outputs_dirs)
  qed
qed

subsection \<open>The single conversion as a whole\<close>

text \<open>Past the two checks, the call is its \<^verbatim>\<open>try\<close> block.\<close>

lemma convert_single_file_checked:
  assumes "path_exists (files st) input_path" "lower (path_suffix input_path) = ''.ipynb''"
  shows "convert_single_file lib self input_path output_path st =
     (case convert_single_file_try lib self input_path
             (case output_path of None \<Rightarrow> parent input_path @ [stem input_path @ ''.html'']
                                | Some p \<Rightarrow> p)
             (print (Converting input_path) st) of
        (Inl e, st2) \<Rightarrow> (Inl e, print (ErrorConverting input_path e) st2)
      | (Inr p, st2) \<Rightarrow> (Inr p, st2))"
  using assms with_suffix_html[OF ipynb_name[OF assms(2)]]
  by (cases output_path) (simp_all add: convert_single_file_def Let_def)

lemma try_printed:
  "convert_single_file_try lib self input out st = (r, st') \<Longrightarrow> prefix (printed st) (printed st')"
proof (cases r)
  case (Inl e)
  assume "convert_single_file_try lib self input out st = (r, st')"
  with Inl show ?thesis by (auto dest: try_Inl)
next
  case (Inr p)
  assume "convert_single_file_try lib self input out st = (r, st')"
  with Inr show ?thesis by (auto dest!: try_Inr load_notebook_Inr)
qed

lemma convert_single_file_Inr:
  assumes "convert_single_file lib self input output_path st = (Inr out, st')"
  shows "path_exists (files st) input" "lower (path_suffix input) = ''.ipynb''"
    "out = (case output_path of None \<Rightarrow> parent input @ [stem input @ ''.html''] | Some p \<Rightarrow> p)"
    "convert_single_file_try lib self input out (print (Converting input) st) = (Inr out, st')"
proof -
  show a: "path_exists (files st) input" and b: "lower (path_suffix input) = ''.ipynb''"
    using assms by (auto simp: convert_single_file_def split: if_splits)
  let ?out = "case output_path of None \<Rightarrow> parent input @ [stem input @ ''.html''] | Some p \<Rightarrow> p"
  obtain r st2 where t: "convert_single_file_try lib self input ?out
      (print (Converting input) st) = (r, st2)" by force
  with assms have r: "r = Inr out" "st2 = st'"
    unfolding convert_single_file_checked[OF a b] by (cases r; simp)+
  from try_Inr[OF t[unfolded r]] have o: "out = ?out" by blast
  then show "out = ?out" .
  from t r o show "convert_single_file_try lib self input out (print (Converting input) st)
      = (Inr out, st')" by simp
qed

lemma convert_single_file_total:
  assumes c: "lookup (files st) input = Some (File content)"
    and x: "lower (path_suffix input) = ''.ipynb''"
    and n: "nbformat_read lib content = Inr nb0"
    and e: "from_notebook_node lib (html_exporter self)
              (if execute_notebook self then snd (preprocess lib nb0 (parent input)) else nb0)
            = Inr (body, res)"
    and o: "out = (case output_path of None \<Rightarrow> parent input @ [stem input @ ''.html'']
                                     | Some p \<Rightarrow> p)"
    and o1: "\<not> is_dir (files st) out"
    and o2: "is_dir (files st) (parent out)"
    and s1: "outputs res \<noteq> [] \<Longrightarrow> \<not> is_file (files st) (side_car out)"
    and s2: "outputs res \<noteq> [] \<Longrightarrow>
      \<forall>k \<in> fst ` set (outputs res). \<not> is_dir (files st) (side_car out @ [k])"
  shows "\<exists>st'. convert_single_file lib self input output_path st = (Inr out, st')"
proof -
  have ex: "path_exists (files st) input" using c by (simp add: path_exists_def)
  let ?st = "print (Converting input) st"
  have c': "lookup (files ?st) input = Some (File content)" using c by simp
  have o1': "\<not> is_dir (files ?st) out" using o1 by simp
  have o2': "is_dir (files ?st) (parent out)" using o2 by simp
  have s1': "outputs res \<noteq> [] \<Longrightarrow> \<not> is_file (files ?st) (side_car out)"
    using s1 by simp
  have s2': "outputs res \<noteq> [] \<Longrightarrow>
      \<forall>k \<in> fst ` set (outputs res). \<not> is_dir (files ?st) (side_car out @ [k])"
    using s2 by simp
  have "\<exists>st'. convert_single_file_try lib self input out ?st = (Inr out, st')"
    using c' n e o1' o2' s1' s2' by (rule try_total)
  then show ?thesis
    unfolding convert_single_file_checked[OF ex x] o by auto
qed


subsection \<open>The input is not among the paths a conversion writes\<close>

lemma ipynb_not_side_car:
  assumes x: "lower (path_suffix input) = ''.ipynb''"
    and po: "parent out = parent input"
  shows "input \<noteq> side_car out"
proof
  assume eq: "input = side_car out"
  then have ne: "input \<noteq> []" by (simp add: side_car_def)
  from eq po have "parent input @ [name input] = parent input @ [stem out @ ''_files'']"
    using path_split[OF ne] by (simp add: side_car_def)
  then have nm: "name input = stem out @ ''_files''" by simp
  have len: "length (path_suffix input) = length ''_files''"
    using arg_cong[OF x, of length] by (simp add: lower_def)
  have "stem input @ path_suffix input = stem out @ ''_files''"
    using stem_suffix_name[of input] nm by simp
  with len have "path_suffix input = ''_files''"
    by (metis append_eq_append_conv)
  moreover have "lower ''_files'' \<noteq> ''.ipynb''" by code_simp
  ultimately show False using x by simp
qed

lemma input_not_resource:
  assumes ne: "input \<noteq> []" and po: "parent out = parent input"
  shows "input \<noteq> side_car out @ [k]"
proof
  assume "input = side_car out @ [k]"
  then have "length input = length (side_car out @ [k])" by simp
  also have "\<dots> = length (parent input) + 2" by (simp add: side_car_def po)
  finally show False using ne by (simp add: parent_def)
qed

lemma map_of_rev_keys:
  "k \<in> fst ` set rs \<Longrightarrow> \<exists>v. map_of (rev rs) k = Some v"
  by (metis map_of_eq_None_iff not_None_eq set_rev)


subsection \<open>The batch conversion past its first check\<close>

lemma convert_directory_valid:
  assumes d: "is_dir (files st) input_dir"
  shows "convert_directory lib self input_dir None recursive st =
      (let pattern = (if recursive then ''**/*.ipynb'' else ''*.ipynb'');
           notebook_files = glob (files st) input_dir pattern
       in if notebook_files = [] then (Inr [], print (NoNotebooksFound input_dir) st)
          else (case convert_directory_loop lib self input_dir input_dir notebook_files []
                       (print (Found (length notebook_files)) st) of
                  (converted_files, st2) \<Rightarrow> (Inr converted_files, st2)))"
    and "mkdir True True dir (files st) = (Some e, fs') \<Longrightarrow>
      convert_directory lib self input_dir (Some dir) recursive st = (Inl e, st\<lparr>files := fs'\<rparr>)"
    and "mkdir True True dir (files st) = (None, fs') \<Longrightarrow>
      convert_directory lib self input_dir (Some dir) recursive st =
      (let pattern = (if recursive then ''**/*.ipynb'' else ''*.ipynb'');
           notebook_files = glob fs' input_dir pattern
       in if notebook_files = [] then (Inr [], print (NoNotebooksFound input_dir) (st\<lparr>files := fs'\<rparr>))
          else (case convert_directory_loop lib self input_dir dir notebook_files []
                       (print (Found (length notebook_files)) (st\<lparr>files := fs'\<rparr>)) of
                  (converted_files, st2) \<Rightarrow> (Inr converted_files, st2)))"
  using d by (simp_all add: convert_directory_def path_exists_def is_dir_def Let_def)

lemma convert_directory_returns:
  assumes d: "is_dir (files st) input_dir"
    and m: "output_dir = None \<or> (\<exists>dir fs'. output_dir = Some dir \<and> mkdir True True dir (files st) = (None, fs'))"
  shows "\<exists>results st'. convert_directory lib self input_dir output_dir recursive st = (Inr results, st')"
proof -
  from m show ?thesis
  proof
    assume "output_dir = None"
    then show ?thesis
      by (simp add: convert_directory_valid(1)[OF d] Let_def split: prod.splits)
  next
    assume "\<exists>dir fs'. output_dir = Some dir \<and> mkdir True True dir (files st) = (None, fs')"
    then obtain dir fs' where o: "output_dir = Some dir"
      and mk: "mkdir True True dir (files st) = (None, fs')" by blast
    show ?thesis
      by (simp add: o convert_directory_valid(3)[OF d mk] Let_def split: prod.splits)
  qed
qed


subsection \<open>The loop of the batch conversion\<close>

lemma failure_lines_append: "failure_lines (a @ b) = failure_lines a @ failure_lines b"
  by (induction a rule: failure_lines.induct) simp_all

lemma quiet_refl [simp]: "quiet st st"
  by (simp add: quiet_def)

lemma quiet_files [simp]: "quiet st (st'\<lparr>files := fs\<rparr>) = quiet st st'"
  by (simp add: quiet_def)

lemma quiet_trans: "quiet a b \<Longrightarrow> quiet b c \<Longrightarrow> quiet a c"
  by (simp add: quiet_def)

lemma quiet_print:
  "failure_lines [e] = [] \<Longrightarrow> quiet st st' \<Longrightarrow> quiet st (print e st')"
  by (simp add: quiet_def failure_lines_append)

lemma quiet_print_left:
  "failure_lines [e] = [] \<Longrightarrow> quiet (print e st) st' \<Longrightarrow> quiet st st'"
  by (simp add: quiet_def failure_lines_append)

lemma load_lines_quiet: "failure_lines (load_lines lib self p nb0) = []"
  by (simp add: load_lines_def split: option.splits)

lemma load_notebook_quiet:
  assumes "load_notebook lib self p st = (r, st1)"
  shows "quiet st st1"
proof (cases r)
  case (Inl e)
  obtain rr where rr: "read_notebook lib p st = rr" by simp
  from assms Inl show ?thesis
    by (auto simp: load_notebook_def p_execute_notebook_def Let_def quiet_def
          failure_lines_append
        split: if_splits sum.splits prod.splits option.splits)
next
  case (Inr nb)
  with assms load_notebook_Inr[of lib self p st nb st1] show ?thesis
    by (auto simp: quiet_def failure_lines_append load_lines_quiet)
qed

lemma try_quiet:
  assumes t: "convert_single_file_try lib self input out st = (r, st')"
  shows "quiet st st'"
proof -
  obtain lr st1 where l: "load_notebook lib self input st = (lr, st1)" by force
  note q1 = load_notebook_quiet[OF l]
  have "quiet st1 st'"
    using t l
    by (auto simp: convert_single_file_try_def Let_def quiet_print
        split: sum.splits prod.splits option.splits if_splits)
  with q1 show ?thesis by (rule quiet_trans)
qed

lemma convert_single_file_quiet:
  assumes "convert_single_file lib self input output_path st = (r, st')"
  shows "quiet st st'"
proof (cases "path_exists (files st) input \<and> lower (path_suffix input) = ''.ipynb''")
  case False
  with assms show ?thesis by (auto simp: convert_single_file_def split: if_splits)
next
  case True
  let ?out = "case output_path of None \<Rightarrow> parent input @ [stem input @ ''.html''] | Some p \<Rightarrow> p"
  obtain tr st2 where t: "convert_single_file_try lib self input ?out
      (print (Converting input) st) = (tr, st2)" by force
  have "quiet st st2"
    using try_quiet[OF t] by (rule quiet_print_left[rotated]) simp
  moreover have "st' = st2 \<or> (\<exists>e. st' = print (ErrorConverting input e) st2)"
    using assms True t convert_single_file_checked[of st input lib self output_path]
    by (cases tr) auto
  ultimately show ?thesis by (auto intro: quiet_print)
qed

lemma convert_directory_try_quiet:
  assumes "convert_directory_try lib self input_dir output_dir f st = (r, st')"
  shows "quiet st st'"
proof -
  have "\<And>st0 out. convert_single_file lib self f out st0 = (r, st') \<Longrightarrow> quiet st0 st'"
    by (rule convert_single_file_quiet)
  with assms show ?thesis
    by (auto simp: convert_directory_try_def Let_def quiet_def
        split: sum.splits prod.splits option.splits)
qed

lemma convert_directory_try_Inr:
  assumes "convert_directory_try lib self input_dir output_dir f st = (Inr p, st')"
  shows "\<exists>rel html_path. relative_to f input_dir = Inr rel \<and>
     with_suffix rel ''.html'' = Inr html_path \<and> p = output_dir @ html_path \<and>
     is_dir (files st') (parent p)"
proof -
  from assms obtain rel where r: "relative_to f input_dir = Inr rel"
    by (cases "relative_to f input_dir") (auto simp: convert_directory_try_def)
  from assms r obtain hp where h: "with_suffix rel ''.html'' = Inr hp"
    by (cases "with_suffix rel ''.html''") (auto simp: convert_directory_try_def)
  obtain mr fs' where m: "mkdir True True (parent (output_dir @ hp)) (files st) = (mr, fs')"
    by force
  from assms r h m have c: "convert_single_file lib self f (Some (output_dir @ hp))
      (st\<lparr>files := fs'\<rparr>) = (Inr p, st')"
    by (cases mr) (auto simp: convert_directory_try_def Let_def)
  note A = convert_single_file_Inr[OF c]
  from A(3) have p: "p = output_dir @ hp" by simp
  from try_valid[OF A(4)] obtain content nb0 body res where
    "lookup (files (print (Converting f) (st\<lparr>files := fs'\<rparr>))) f = Some (File content)"
    "nbformat_read lib content = Inr nb0"
    "from_notebook_node lib (html_exporter self)
       (if execute_notebook self then snd (preprocess lib nb0 (parent f)) else nb0)
       = Inr (body, res)" by blast
  from try_effects(5)[OF A(4) this] r h p show ?thesis by simp
qed

lemma loop_outcomes:
  "convert_directory_loop lib self input_dir output_dir fs acc st = (results, st') \<Longrightarrow>
     results = acc @ successes (batch_outcomes lib self input_dir output_dir fs st) \<and>
     map fst (batch_outcomes lib self input_dir output_dir fs st) = fs \<and>
     failure_lines (printed st') = failure_lines (printed st) @
       failures (batch_outcomes lib self input_dir output_dir fs st)"
proof (induction fs arbitrary: acc st)
  case Nil
  then show ?case by simp
next
  case (Cons f fs)
  obtain r st1 where t: "convert_directory_try lib self input_dir output_dir f st = (r, st1)"
    by force
  from convert_directory_try_quiet[OF t]
  have q: "failure_lines (printed st1) = failure_lines (printed st)" by (simp add: quiet_def)
  show ?case
  proof (cases r)
    case (Inr p)
    with Cons.prems t have
      "convert_directory_loop lib self input_dir output_dir fs (acc @ [p]) st1 = (results, st')"
      by simp
    from Cons.IH[OF this] t Inr q show ?thesis by simp
  next
    case (Inl e)
    with Cons.prems t have
      "convert_directory_loop lib self input_dir output_dir fs acc
         (print (FailedToConvert f e) st1) = (results, st')"
      by simp
    from Cons.IH[OF this] t Inl q show ?thesis by (simp add: failure_lines_append)
  qed
qed

lemma successes_failures_length:
  "length (successes os) + length (failures os) = length os"
  by (induction os rule: successes.induct) simp_all


subsection \<open>Enumerating the notebooks\<close>

lemma fnmatch_literal:
  "CHR ''*'' \<notin> set p \<Longrightarrow> CHR ''?'' \<notin> set p \<Longrightarrow> fnmatch n p \<longleftrightarrow> n = p"
  by (induction n p rule: fnmatch.induct) auto

lemma fnmatch_star_literal:
  assumes "CHR ''*'' \<notin> set p" "CHR ''?'' \<notin> set p"
  shows "fnmatch n (CHR ''*'' # p) \<longleftrightarrow> (\<exists>s. n = s @ p)"
proof (induction n)
  case Nil
  show ?case using fnmatch_literal[OF assms, of "[]"] by auto
next
  case (Cons c cs)
  have "fnmatch (c # cs) (CHR ''*'' # p) \<longleftrightarrow> c # cs = p \<or> (\<exists>s. cs = s @ p)"
    using Cons fnmatch_literal[OF assms, of "c # cs"] by simp
  also have "\<dots> \<longleftrightarrow> (\<exists>s. c # cs = s @ p)"
    by (auto simp: Cons_eq_append_conv)
  finally show ?case .
qed

lemma fnmatch_ipynb: "fnmatch n ''*.ipynb'' \<longleftrightarrow> (\<exists>s. n = s @ ''.ipynb'')"
  using fnmatch_star_literal[of "''.ipynb''" n] by simp

lemma selects_last:
  "seg \<noteq> ''**'' \<Longrightarrow>
     selects fs base [seg] rel \<longleftrightarrow>
       (\<exists>n. rel = [n] \<and> fnmatch n seg \<and> path_exists fs (base @ [n]))"
  by (cases rel) auto

lemma selects_recursive:
  assumes seg: "seg \<noteq> ''**''"
  shows "selects fs base [''**'', seg] rel \<longleftrightarrow>
     (\<exists>ds n. rel = ds @ [n] \<and> fnmatch n seg \<and> path_exists fs (base @ ds @ [n]) \<and>
        (\<forall>r. r \<noteq> [] \<and> prefix r ds \<longrightarrow> is_dir fs (base @ r)))"
proof (induction rel arbitrary: base)
  case Nil
  show ?case using seg by simp
next
  case (Cons c cs)
  let ?R = "\<lambda>base rel. \<exists>ds n. rel = ds @ [n] \<and> fnmatch n seg \<and> path_exists fs (base @ ds @ [n]) \<and>
        (\<forall>r. r \<noteq> [] \<and> prefix r ds \<longrightarrow> is_dir fs (base @ r))"
  have step: "selects fs base [''**'', seg] (c # cs) \<longleftrightarrow>
      (cs = [] \<and> fnmatch c seg \<and> path_exists fs (base @ [c])) \<or>
      (is_dir fs (base @ [c]) \<and> ?R (base @ [c]) cs)"
    using Cons.IH[of "base @ [c]"] selects_last[OF seg, of fs base "c # cs"] by auto
  have "?R base (c # cs) \<longleftrightarrow>
      (cs = [] \<and> fnmatch c seg \<and> path_exists fs (base @ [c])) \<or>
      (is_dir fs (base @ [c]) \<and> ?R (base @ [c]) cs)"
  proof
    assume "?R base (c # cs)"
    then obtain ds n where r: "c # cs = ds @ [n]" and f: "fnmatch n seg"
      and e: "path_exists fs (base @ ds @ [n])"
      and dd: "\<forall>r. r \<noteq> [] \<and> prefix r ds \<longrightarrow> is_dir fs (base @ r)" by blast
    show "(cs = [] \<and> fnmatch c seg \<and> path_exists fs (base @ [c])) \<or>
      (is_dir fs (base @ [c]) \<and> ?R (base @ [c]) cs)"
    proof (cases ds)
      case Nil
      with r f e show ?thesis by simp
    next
      case (Cons c' ds')
      with r have c': "c' = c" and cs: "cs = ds' @ [n]" by simp_all
      have "is_dir fs (base @ [c])" using dd Cons c' by simp
      moreover have "\<forall>r. r \<noteq> [] \<and> prefix r ds' \<longrightarrow> is_dir fs ((base @ [c]) @ r)"
      proof (intro allI impI)
        fix r assume "r \<noteq> [] \<and> prefix r ds'"
        then have "c # r \<noteq> [] \<and> prefix (c # r) ds" using Cons c' by simp
        with dd have "is_dir fs (base @ c # r)" by blast
        then show "is_dir fs ((base @ [c]) @ r)" by simp
      qed
      moreover have "path_exists fs ((base @ [c]) @ ds' @ [n])" using e Cons c' by simp
      ultimately have "is_dir fs (base @ [c]) \<and> ?R (base @ [c]) cs"
        using cs f by blast
      then show ?thesis ..
    qed
  next
    assume "(cs = [] \<and> fnmatch c seg \<and> path_exists fs (base @ [c])) \<or>
      (is_dir fs (base @ [c]) \<and> ?R (base @ [c]) cs)"
    then show "?R base (c # cs)"
    proof
      assume "cs = [] \<and> fnmatch c seg \<and> path_exists fs (base @ [c])"
      then have "c # cs = [] @ [c] \<and> fnmatch c seg \<and> path_exists fs (base @ [] @ [c]) \<and>
        (\<forall>r. r \<noteq> [] \<and> prefix r [] \<longrightarrow> is_dir fs (base @ r))" by simp
      then show ?thesis by blast
    next
      assume a: "is_dir fs (base @ [c]) \<and> ?R (base @ [c]) cs"
      then obtain ds n where cs: "cs = ds @ [n]" and f: "fnmatch n seg"
        and e: "path_exists fs ((base @ [c]) @ ds @ [n])"
        and dd: "\<forall>r. r \<noteq> [] \<and> prefix r ds \<longrightarrow> is_dir fs ((base @ [c]) @ r)" by blast
      have "\<forall>r. r \<noteq> [] \<and> prefix r (c # ds) \<longrightarrow> is_dir fs (base @ r)"
      proof (intro allI impI)
        fix r assume r: "r \<noteq> [] \<and> prefix r (c # ds)"
        then obtain r' where r': "r = c # r'" "prefix r' ds" by (auto simp: prefix_Cons)
        show "is_dir fs (base @ r)"
        proof (cases "r' = []")
          case True
          with a r' show ?thesis by simp
        next
          case False
          with dd r' have "is_dir fs ((base @ [c]) @ r')" by blast
          with r' show ?thesis by simp
        qed
      qed
      moreover have "c # cs = (c # ds) @ [n]" using cs by simp
      moreover have "path_exists fs (base @ (c # ds) @ [n])" using e by simp
      ultimately show ?thesis using f by blast
    qed
  qed
  with step show ?case by simp
qed

lemma glob_iff:
  "f \<in> set (glob fs d pattern) \<longleftrightarrow>
     f \<in> fst ` set fs \<and> prefix d f \<and> selects fs d (split_sep pattern) (drop (length d) f)"
  by (auto simp: glob_def)

lemma listed_exists: "f \<noteq> [] \<Longrightarrow> f \<in> fst ` set fs \<longleftrightarrow> path_exists fs f"
  by (simp add: path_exists_def lookup_def map_of_eq_None_iff)

lemma glob_plain:
  "f \<in> set (glob fs d ''*.ipynb'') \<longleftrightarrow>
     (\<exists>s. f = d @ [s @ ''.ipynb''] \<and> path_exists fs f)"
proof -
  have sp: "split_sep ''*.ipynb'' = [''*.ipynb'']" by simp
  have ne: "''*.ipynb'' \<noteq> ''**''" by simp
  show ?thesis
  proof
    assume "f \<in> set (glob fs d ''*.ipynb'')"
    then have l: "f \<in> fst ` set fs" and p: "prefix d f"
      and s: "selects fs d [''*.ipynb''] (drop (length d) f)"
      unfolding glob_iff sp by simp_all
    from s obtain n where n: "drop (length d) f = [n]" and m: "fnmatch n ''*.ipynb''"
      unfolding selects_last[OF ne] by blast
    from p n have f: "f = d @ [n]" by (metis prefix_def append_eq_conv_conj)
    with l have "path_exists fs f" by (simp add: listed_exists)
    with f m show "\<exists>s. f = d @ [s @ ''.ipynb''] \<and> path_exists fs f"
      unfolding fnmatch_ipynb by blast
  next
    assume "\<exists>s. f = d @ [s @ ''.ipynb''] \<and> path_exists fs f"
    then obtain s where f: "f = d @ [s @ ''.ipynb'']" and e: "path_exists fs f" by blast
    have "fnmatch (s @ ''.ipynb'') ''*.ipynb''" unfolding fnmatch_ipynb by blast
    with f e have "selects fs d [''*.ipynb''] (drop (length d) f)"
      unfolding selects_last[OF ne] by simp
    moreover have "f \<in> fst ` set fs" using e f by (simp add: listed_exists)
    ultimately show "f \<in> set (glob fs d ''*.ipynb'')"
      unfolding glob_iff sp using f by simp
  qed
qed

lemma glob_recursive:
  "f \<in> set (glob fs d ''**/*.ipynb'') \<longleftrightarrow>
     (\<exists>ds s. f = d @ ds @ [s @ ''.ipynb''] \<and> path_exists fs f \<and>
        (\<forall>r. r \<noteq> [] \<and> prefix r ds \<longrightarrow> is_dir fs (d @ r)))"
proof -
  have sp: "split_sep ''**/*.ipynb'' = [''**'', ''*.ipynb'']" by simp
  have ne: "''*.ipynb'' \<noteq> ''**''" by simp
  show ?thesis
  proof
    assume "f \<in> set (glob fs d ''**/*.ipynb'')"
    then have l: "f \<in> fst ` set fs" and p: "prefix d f"
      and s: "selects fs d [''**'', ''*.ipynb''] (drop (length d) f)"
      unfolding glob_iff sp by simp_all
    from s obtain ds n where n: "drop (length d) f = ds @ [n]" and m: "fnmatch n ''*.ipynb''"
      and dd: "\<forall>r. r \<noteq> [] \<and> prefix r ds \<longrightarrow> is_dir fs (d @ r)"
      unfolding selects_recursive[OF ne] by blast
    from p n have f: "f = d @ ds @ [n]" by (metis prefix_def append_eq_conv_conj)
    with l have "path_exists fs f" by (simp add: listed_exists)
    with f m dd show "\<exists>ds s. f = d @ ds @ [s @ ''.ipynb''] \<and> path_exists fs f \<and>
        (\<forall>r. r \<noteq> [] \<and> prefix r ds \<longrightarrow> is_dir fs (d @ r))"
      unfolding fnmatch_ipynb by blast
  next
    assume "\<exists>ds s. f = d @ ds @ [s @ ''.ipynb''] \<and> path_exists fs f \<and>
        (\<forall>r. r \<noteq> [] \<and> prefix r ds \<longrightarrow> is_dir fs (d @ r))"
    then obtain ds s where f: "f = d @ ds @ [s @ ''.ipynb'']" and e: "path_exists fs f"
      and dd: "\<forall>r. r \<noteq> [] \<and> prefix r ds \<longrightarrow> is_dir fs (d @ r)" by blast
    have "fnmatch (s @ ''.ipynb'') ''*.ipynb''" unfolding fnmatch_ipynb by blast
    with f e dd have "selects fs d [''**'', ''*.ipynb''] (drop (length d) f)"
      unfolding selects_recursive[OF ne] by auto
    moreover have "f \<in> fst ` set fs" using e f by (simp add: listed_exists)
    ultimately show "f \<in> set (glob fs d ''**/*.ipynb'')"
      unfolding glob_iff sp using f by simp
  qed
qed

lemma name_stem_ipynb: "s \<noteq> [] \<Longrightarrow> name_stem (s @ ''.ipynb'') = s"
proof -
  assume s: "s \<noteq> []"
  have "rfind (CHR ''.'') ''.ipynb'' = Some 0" by simp
  from rfind_append[OF this, of s] s show ?thesis
    by (simp add: name_stem_def)
qed

subsection \<open>The output paths of the batch conversion\<close>

lemma successes_member:
  "p \<in> set (successes os) \<Longrightarrow> \<exists>f. (f, Inr p) \<in> set os"
  by (induction os rule: successes.induct) auto

lemma batch_outcomes_member:
  "(f, Inr p) \<in> set (batch_outcomes lib self input_dir out fs st) \<Longrightarrow>
     f \<in> set fs \<and> (\<exists>st0 st1. convert_directory_try lib self input_dir out f st0 = (Inr p, st1))"
proof (induction fs arbitrary: st)
  case Nil
  then show ?case by simp
next
  case (Cons g fs)
  obtain r st1 where t: "convert_directory_try lib self input_dir out g st = (r, st1)" by force
  show ?case
  proof (cases r)
    case (Inr q)
    with Cons.prems t have
      "(f, Inr p) = (g, Inr q) \<or> (f, Inr p) \<in> set (batch_outcomes lib self input_dir out fs st1)"
      by simp
    then show ?thesis
    proof
      assume "(f, Inr p) = (g, Inr q)"
      with t Inr show ?thesis by auto
    next
      assume "(f, Inr p) \<in> set (batch_outcomes lib self input_dir out fs st1)"
      from Cons.IH[OF this] show ?thesis by auto
    qed
  next
    case (Inl e)
    with Cons.prems t have
      "(f, Inr p) \<in> set (batch_outcomes lib self input_dir out fs (print (FailedToConvert g e) st1))"
      by simp
    from Cons.IH[OF this] show ?thesis by auto
  qed
qed

lemma convert_directory_try_suffix:
  assumes "convert_directory_try lib self input_dir output_dir f st = (Inr p, st')"
  shows "lower (path_suffix f) = ''.ipynb''"
proof -
  from assms obtain rel where r: "relative_to f input_dir = Inr rel"
    by (cases "relative_to f input_dir") (auto simp: convert_directory_try_def)
  from assms r obtain hp where h: "with_suffix rel ''.html'' = Inr hp"
    by (cases "with_suffix rel ''.html''") (auto simp: convert_directory_try_def)
  obtain mr fs' where m: "mkdir True True (parent (output_dir @ hp)) (files st) = (mr, fs')"
    by force
  from assms r h m have c: "convert_single_file lib self f (Some (output_dir @ hp))
      (st\<lparr>files := fs'\<rparr>) = (Inr p, st')"
    by (cases mr) (auto simp: convert_directory_try_def Let_def)
  from convert_single_file_Inr(2)[OF c] show ?thesis .
qed

lemma notebook_paths:
  assumes n: "n \<noteq> []"
  shows "relative_to (d @ ds @ [n]) d = Inr (ds @ [n])"
    and "with_suffix (ds @ [n]) ''.html'' = Inr (ds @ [name_stem n @ ''.html''])"
    and "parent (out @ ds @ [m]) = out @ ds"
proof -
  show "relative_to (d @ ds @ [n]) d = Inr (ds @ [n])"
    by (simp add: relative_to_def)
  have "name (ds @ [n]) = n" by (simp add: name_def)
  with n with_suffix_html[of "ds @ [n]"]
  show "with_suffix (ds @ [n]) ''.html'' = Inr (ds @ [name_stem n @ ''.html''])"
    by (simp add: stem_def parent_def)
  show "parent (out @ ds @ [m]) = out @ ds"
    by (simp add: parent_def butlast_append)
qed

lemma convert_directory_try_eq:
  assumes n: "n \<noteq> []"
  shows "convert_directory_try lib self input_dir out (input_dir @ ds @ [n]) st =
     (case mkdir True True (out @ ds) (files st) of
        (Some e, fs') \<Rightarrow> (Inl e, st\<lparr>files := fs'\<rparr>)
      | (None, fs') \<Rightarrow>
          convert_single_file lib self (input_dir @ ds @ [n])
            (Some (out @ ds @ [name_stem n @ ''.html''])) (st\<lparr>files := fs'\<rparr>))"
proof -
  have r: "relative_to (input_dir @ ds @ [n]) input_dir = Inr (ds @ [n])"
    by (rule notebook_paths(1)[OF n])
  have w: "with_suffix (ds @ [n]) ''.html'' = Inr (ds @ [name_stem n @ ''.html''])"
    by (rule notebook_paths(2)[OF n])
  have p: "parent (out @ ds @ [name_stem n @ ''.html'']) = out @ ds"
    by (rule notebook_paths(3)[OF n])
  show ?thesis
    by (simp add: convert_directory_try_def r w Let_def p)
qed

lemma empty_stem_no_suffix: "path_suffix (d @ ds @ [''.ipynb'']) = []"
  by (simp add: path_suffix_def name_def name_suffix_def)

lemma convert_directory_results:
  assumes run: "convert_directory lib self input_dir output_dir recursive st = (Inr results, st')"
    and p: "p \<in> set results"
  shows "\<exists>f. f \<in> set (glob (case output_dir of None \<Rightarrow> files st
                              | Some dir \<Rightarrow> snd (mkdir True True dir (files st)))
                    input_dir (if recursive then ''**/*.ipynb'' else ''*.ipynb'')) \<and>
     (\<exists>st0 st1. convert_directory_try lib self input_dir
        (case output_dir of None \<Rightarrow> input_dir | Some dir \<Rightarrow> dir) f st0 = (Inr p, st1))"
proof -
  from run have d: "is_dir (files st) input_dir"
    by (auto simp: convert_directory_def split: if_splits)
  define out where "out = (case output_dir of None \<Rightarrow> input_dir | Some dir \<Rightarrow> dir)"
  define fs1 where "fs1 = (case output_dir of None \<Rightarrow> files st
                 | Some dir \<Rightarrow> snd (mkdir True True dir (files st)))"
  define nbs where "nbs = glob fs1 input_dir (if recursive then ''**/*.ipynb'' else ''*.ipynb'')"
  have "\<exists>st1. convert_directory lib self input_dir output_dir recursive st =
      (if nbs = [] then (Inr [], print (NoNotebooksFound input_dir) st1)
       else (case convert_directory_loop lib self input_dir out nbs []
                       (print (Found (length nbs)) st1) of
                  (converted_files, st2) \<Rightarrow> (Inr converted_files, st2)))"
  proof (cases output_dir)
    case None
    then show ?thesis
      unfolding nbs_def fs1_def out_def
      by (auto simp add: convert_directory_valid(1)[OF d] Let_def)
  next
    case (Some dir)
    obtain mr fs' where mk: "mkdir True True dir (files st) = (mr, fs')" by force
    with run Some d have "mr = None"
      by (cases mr) (auto simp: convert_directory_valid(2))
    with mk Some show ?thesis
      unfolding nbs_def fs1_def out_def
      by (auto simp add: convert_directory_valid(3)[OF d] Let_def)
  qed
  then obtain st1 where cd: "convert_directory lib self input_dir output_dir recursive st =
      (if nbs = [] then (Inr [], print (NoNotebooksFound input_dir) st1)
       else (case convert_directory_loop lib self input_dir out nbs []
                       (print (Found (length nbs)) st1) of
                  (converted_files, st2) \<Rightarrow> (Inr converted_files, st2)))" ..
  from run p cd have ne: "nbs \<noteq> []" by (auto split: if_splits)
  with run cd have l: "convert_directory_loop lib self input_dir out nbs []
      (print (Found (length nbs)) st1) = (results, st')"
    by (auto split: prod.splits)
  from loop_outcomes[OF l] p have
    "p \<in> set (successes (batch_outcomes lib self input_dir out nbs (print (Found (length nbs)) st1)))"
    by simp
  from successes_member[OF this] obtain f where
    "(f, Inr p) \<in> set (batch_outcomes lib self input_dir out nbs (print (Found (length nbs)) st1))"
    ..
  from batch_outcomes_member[OF this] show ?thesis
    unfolding nbs_def fs1_def out_def by blast
qed

subsection \<open>What a batch leaves behind\<close>

lemma grows_refl [simp]: "grows fs fs"
  by (simp add: grows_def)

lemma grows_trans: "grows a b \<Longrightarrow> grows b c \<Longrightarrow> grows a c"
  by (simp add: grows_def)

lemma grows_dir: "grows fs fs' \<Longrightarrow> is_dir fs q \<Longrightarrow> is_dir fs' q"
  by (simp add: grows_def)

lemma grows_file: "grows fs fs' \<Longrightarrow> is_file fs q \<Longrightarrow> is_file fs' q"
  by (simp add: grows_def)

lemma grows_update_file:
  "p \<noteq> [] \<Longrightarrow> \<not> is_dir fs p \<Longrightarrow> grows fs (AList.update p (File c) fs)"
  by (auto simp: grows_def is_dir_def is_file_def lookup_update)

lemma grows_update_dir:
  "p \<noteq> [] \<Longrightarrow> \<not> path_exists fs p \<Longrightarrow> grows fs (AList.update p Dir fs)"
  by (auto simp: grows_def is_dir_def is_file_def path_exists_def lookup_update)

lemma open_write_grows: "open_write fs p c = Inr fs' \<Longrightarrow> grows fs fs'"
  by (auto simp: open_write_Inr grows_update_file)

lemma os_mkdir_grows: "os_mkdir fs p = Inr fs' \<Longrightarrow> grows fs fs'"
  by (auto simp: os_mkdir_Inr grows_update_dir)

lemma mkdir_grows:
  "mkdir pa ex p fs = (r, fs') \<Longrightarrow> grows fs fs'"
proof (induction pa ex p fs arbitrary: r fs' rule: mkdir.induct)
  case (1 parents exist_ok p fs)
  show ?case
  proof (cases "os_mkdir fs p")
    case (Inr fs1)
    with "1.prems" have "fs' = fs1" by (subst (asm) mkdir.simps) simp
    with Inr show ?thesis by (simp add: os_mkdir_grows)
  next
    case (Inl e1)
    show ?thesis
    proof (cases "e1 = FileNotFoundError \<and> \<not> (\<not> parents \<or> parent p = p)")
      case False
      with "1.prems" Inl show ?thesis
        by (subst (asm) mkdir.simps) (auto split: if_splits)
    next
      case True
      obtain r1 fs1 where par: "mkdir True True (parent p) fs = (r1, fs1)" by force
      have g1: "grows fs fs1"
        using "1.IH"(1)[OF Inl _ _ par] True by simp
      show ?thesis
      proof (cases r1)
        case None
        with "1.prems" Inl True par have step: "mkdir False exist_ok p fs1 = (r, fs')"
          by (subst (asm) mkdir.simps) simp
        have "grows fs1 fs'"
          using "1.IH"(2)[OF Inl _ _ _ _ step] True par None by simp
        with g1 show ?thesis by (rule grows_trans)
      next
        case (Some e2)
        with "1.prems" Inl True par have "fs' = fs1"
          by (subst (asm) mkdir.simps) simp
        with g1 show ?thesis by simp
      qed
    qed
  qed
qed

lemma write_outputs_grows:
  "write_outputs d rs fs = (r, fs') \<Longrightarrow> grows fs fs'"
proof (induction rs arbitrary: fs)
  case Nil
  then show ?case by simp
next
  case (Cons x rs)
  obtain k v where x: "x = (k, v)" by (cases x)
  show ?case
  proof (cases "open_write fs (d @ [k]) v")
    case (Inl e)
    with Cons.prems x show ?thesis by simp
  next
    case (Inr fs1)
    with Cons.prems x have "write_outputs d rs fs1 = (r, fs')" by simp
    from Cons.IH[OF this] open_write_grows[OF Inr] show ?thesis by (blast intro: grows_trans)
  qed
qed

lemma load_notebook_files:
  "load_notebook lib self p st = (r, st1) \<Longrightarrow> files st1 = files st"
  by (cases r) (auto dest: load_notebook_Inl load_notebook_Inr)

lemma try_grows:
  assumes t: "convert_single_file_try lib self input out st = (r, st')"
  shows "grows (files st) (files st')"
proof -
  obtain lr st1 where l: "load_notebook lib self input st = (lr, st1)" by force
  note f1 = load_notebook_files[OF l]
  show ?thesis
  proof (cases lr)
    case (Inl e)
    with t l f1 show ?thesis by (auto simp: convert_single_file_try_def)
  next
    case (Inr nb)
    show ?thesis
    proof (cases "from_notebook_node lib (html_exporter self) nb")
      case (Inl m)
      with t l Inr f1 show ?thesis by (auto simp: convert_single_file_try_def)
    next
      case ex: (Inr br)
      obtain body res where br: "br = (body, res)" by (cases br)
      show ?thesis
      proof (cases "open_write (files st) out (p_enhance_html_output lib body input)")
        case (Inl e2)
        with t l Inr ex br f1 show ?thesis by (auto simp: convert_single_file_try_def)
      next
        case w: (Inr fs2)
        note g2 = open_write_grows[OF w]
        show ?thesis
        proof (cases "outputs res = []")
          case True
          with t l Inr ex br f1 w g2 show ?thesis
            by (auto simp: convert_single_file_try_def)
        next
          case False
          obtain mr fs3 where m: "mkdir False True (parent out @ [stem out @ ''_files'']) fs2
              = (mr, fs3)" by force
          note g3 = grows_trans[OF g2 mkdir_grows[OF m]]
          show ?thesis
          proof (cases mr)
            case (Some e3)
            with t l Inr ex br f1 w m False g3 show ?thesis
              by (auto simp: convert_single_file_try_def Let_def)
          next
            case None
            obtain wr fs4 where wo: "write_outputs (parent out @ [stem out @ ''_files''])
                (outputs res) fs3 = (wr, fs4)" by force
            note g4 = grows_trans[OF g3 write_outputs_grows[OF wo]]
            from t l Inr ex br f1 w m False None wo g4 show ?thesis
              by (cases wr) (auto simp: convert_single_file_try_def Let_def)
          qed
        qed
      qed
    qed
  qed
qed

lemma convert_single_file_grows:
  assumes "convert_single_file lib self input output_path st = (r, st')"
  shows "grows (files st) (files st')"
proof (cases "path_exists (files st) input \<and> lower (path_suffix input) = ''.ipynb''")
  case False
  with assms show ?thesis by (auto simp: convert_single_file_def split: if_splits)
next
  case True
  let ?out = "case output_path of None \<Rightarrow> parent input @ [stem input @ ''.html''] | Some p \<Rightarrow> p"
  obtain tr st2 where t: "convert_single_file_try lib self input ?out
      (print (Converting input) st) = (tr, st2)" by force
  have "grows (files st) (files st2)" using try_grows[OF t] by simp
  moreover have "files st' = files st2"
    using assms True t convert_single_file_checked[of st input lib self output_path]
    by (cases tr) auto
  ultimately show ?thesis by simp
qed

text \<open>The loop body, for a path below the input directory.\<close>

lemma body_cases:
  assumes n: "n \<noteq> []"
    and t: "convert_directory_try lib self input_dir out (input_dir @ ds @ [n]) st = (r, st1)"
  shows "grows (files st) (files st1)"
    and "is_dir (files st1) (out @ ds) \<or> (\<exists>q. prefix q (out @ ds) \<and> is_file (files st1) q)"
    and "r = Inr p \<Longrightarrow> p = out @ ds @ [name_stem n @ ''.html''] \<and> is_file (files st1) p \<and>
           is_dir (files st1) (out @ ds) \<and> lower (name_suffix n) = ''.ipynb''"
proof -
  let ?f = "input_dir @ ds @ [n]"
  let ?o = "out @ ds @ [name_stem n @ ''.html'']"
  obtain mr fs' where m: "mkdir True True (out @ ds) (files st) = (mr, fs')" by force
  note gm = mkdir_grows[OF m]
  note eq = convert_directory_try_eq[OF n, of lib self input_dir out ds st]
  have "grows (files st) (files st1) \<and>
    (is_dir (files st1) (out @ ds) \<or> (\<exists>q. prefix q (out @ ds) \<and> is_file (files st1) q)) \<and>
    (r = Inr p \<longrightarrow> p = ?o \<and> is_file (files st1) p \<and> is_dir (files st1) (out @ ds) \<and>
       lower (name_suffix n) = ''.ipynb'')"
  proof (cases mr)
    case (Some e)
    with t eq m have r: "r = Inl e" and s1: "files st1 = fs'" by auto
    have "\<exists>q. prefix q (out @ ds) \<and> is_file (files st) q"
    proof (rule ccontr)
      assume "\<not> (\<exists>q. prefix q (out @ ds) \<and> is_file (files st) q)"
      then have "\<forall>q. prefix q (out @ ds) \<longrightarrow> \<not> is_file (files st) q" by blast
      from mkdir_parents_total[OF this] m Some show False by simp
    qed
    then obtain q where "prefix q (out @ ds)" "is_file (files st) q" by blast
    with gm s1 have "\<exists>q. prefix q (out @ ds) \<and> is_file (files st1) q"
      by (auto dest: grows_file)
    with r s1 gm show ?thesis by simp
  next
    case None
    with t eq m have c: "convert_single_file lib self ?f (Some ?o) (st\<lparr>files := fs'\<rparr>) = (r, st1)"
      by simp
    from convert_single_file_grows[OF c] have g1: "grows fs' (files st1)" by simp
    from mkdir_success[OF m[unfolded None]] have "is_dir fs' (out @ ds)" by simp
    with g1 have d: "is_dir (files st1) (out @ ds)" by (rule grows_dir)
    have "r = Inr p \<longrightarrow> p = ?o \<and> is_file (files st1) p \<and> lower (name_suffix n) = ''.ipynb''"
    proof
      assume rp: "r = Inr p"
      note A = convert_single_file_Inr[OF c[unfolded rp]]
      from A(3) have p: "p = ?o" by simp
      from try_valid[OF A(4)] obtain content nb0 body res where
        v: "lookup (files (print (Converting ?f) (st\<lparr>files := fs'\<rparr>))) ?f = Some (File content)"
          "nbformat_read lib content = Inr nb0"
          "from_notebook_node lib (html_exporter self)
             (if execute_notebook self then snd (preprocess lib nb0 (parent ?f)) else nb0)
             = Inr (body, res)" by blast
      from try_effects(7)[OF A(4) v] have "is_file (files st1) p" by (simp add: is_file_def)
      moreover from A(2) have "lower (name_suffix n) = ''.ipynb''"
        by (simp add: path_suffix_def name_def)
      ultimately show "p = ?o \<and> is_file (files st1) p \<and> lower (name_suffix n) = ''.ipynb''"
        using p by simp
    qed
    with d grows_trans[OF gm g1] show ?thesis by simp
  qed
  then show "grows (files st) (files st1)"
    and "is_dir (files st1) (out @ ds) \<or> (\<exists>q. prefix q (out @ ds) \<and> is_file (files st1) q)"
    and "r = Inr p \<Longrightarrow> p = out @ ds @ [name_stem n @ ''.html''] \<and> is_file (files st1) p \<and>
           is_dir (files st1) (out @ ds) \<and> lower (name_suffix n) = ''.ipynb''"
    by blast+
qed

lemma loop_final:
  "convert_directory_loop lib self input_dir out fs acc st = (results, st') \<Longrightarrow>
   (\<forall>f \<in> set fs. \<exists>ds n. f = input_dir @ ds @ [n] \<and> n \<noteq> []) \<Longrightarrow>
     grows (files st) (files st') \<and>
     (\<forall>ds n. input_dir @ ds @ [n] \<in> set fs \<longrightarrow>
        is_dir (files st') (out @ ds) \<or> (\<exists>q. prefix q (out @ ds) \<and> is_file (files st') q)) \<and>
     (\<forall>p \<in> set results. p \<in> set acc \<or>
        (is_file (files st') p \<and> is_dir (files st') (parent p)))"
proof (induction fs arbitrary: acc st)
  case Nil
  then show ?case by simp
next
  case (Cons f fs)
  from Cons.prems(2) obtain ds0 n0 where f: "f = input_dir @ ds0 @ [n0]" and n0: "n0 \<noteq> []"
    by auto
  from Cons.prems(2) have form: "\<forall>f \<in> set fs. \<exists>ds n. f = input_dir @ ds @ [n] \<and> n \<noteq> []"
    by simp
  obtain r st1 where t: "convert_directory_try lib self input_dir out f st = (r, st1)" by force
  note b = body_cases[OF n0 t[unfolded f]]
  define st2 where "st2 = (case r of Inr p \<Rightarrow> st1 | Inl e \<Rightarrow> print (FailedToConvert f e) st1)"
  define acc2 where "acc2 = (case r of Inr p \<Rightarrow> acc @ [p] | Inl e \<Rightarrow> acc)"
  have f2: "files st2 = files st1" by (simp add: st2_def split: sum.splits)
  from Cons.prems(1) t have l: "convert_directory_loop lib self input_dir out fs acc2 st2
      = (results, st')"
    by (cases r) (simp_all add: st2_def acc2_def)
  note IH = Cons.IH[OF l form]
  from IH have g2: "grows (files st1) (files st')" by (simp add: f2)
  have g: "grows (files st) (files st')" using b(1) g2 by (rule grows_trans)
  have d0: "is_dir (files st') (out @ ds0) \<or> (\<exists>q. prefix q (out @ ds0) \<and> is_file (files st') q)"
    using b(2) g2 by (auto dest: grows_dir grows_file)
  have dirs: "\<forall>ds n. input_dir @ ds @ [n] \<in> set (f # fs) \<longrightarrow>
        is_dir (files st') (out @ ds) \<or> (\<exists>q. prefix q (out @ ds) \<and> is_file (files st') q)"
  proof (intro allI impI)
    fix ds n assume "input_dir @ ds @ [n] \<in> set (f # fs)"
    then have "input_dir @ ds @ [n] = f \<or> input_dir @ ds @ [n] \<in> set fs" by auto
    then show "is_dir (files st') (out @ ds) \<or> (\<exists>q. prefix q (out @ ds) \<and> is_file (files st') q)"
    proof
      assume "input_dir @ ds @ [n] = f"
      with f have "ds = ds0" by simp
      with d0 show ?thesis by simp
    next
      assume "input_dir @ ds @ [n] \<in> set fs"
      with IH show ?thesis by blast
    qed
  qed
  have res: "\<forall>p \<in> set results. p \<in> set acc \<or>
        (is_file (files st') p \<and> is_dir (files st') (parent p))"
  proof
    fix p assume "p \<in> set results"
    with IH have c: "p \<in> set acc2 \<or> (is_file (files st') p \<and> is_dir (files st') (parent p))"
      by blast
    show "p \<in> set acc \<or> (is_file (files st') p \<and> is_dir (files st') (parent p))"
    proof (cases "p \<in> set acc2 \<and> p \<notin> set acc")
      case False
      with c show ?thesis by blast
    next
      case True
      then have r: "r = Inr p" by (cases r) (auto simp: acc2_def)
      from b(3)[OF r] have p: "p = out @ ds0 @ [name_stem n0 @ ''.html'']"
        and pf: "is_file (files st1) p" and pd: "is_dir (files st1) (out @ ds0)" by blast+
      from p have "parent p = out @ ds0" by (simp add: parent_def butlast_append)
      with pf pd g2 show ?thesis by (auto dest: grows_dir grows_file)
    qed
  qed
  from g dirs res show ?case by blast
qed

lemma outcome_exists:
  "f \<in> set (map fst os) \<Longrightarrow> \<exists>r. (f, r) \<in> set os"
  by auto

lemma successes_intro: "(f, Inr p) \<in> set os \<Longrightarrow> p \<in> set (successes os)"
  by (induction os rule: successes.induct) auto

lemma failures_intro: "(f, Inl e) \<in> set os \<Longrightarrow> (f, e) \<in> set (failures os)"
  by (induction os rule: failures.induct) auto

lemma failures_member: "(f, e) \<in> set (failures os) \<Longrightarrow> f \<in> set (map fst os)"
  by (induction os rule: failures.induct) auto

lemma stemless_suffix: "lower (name_suffix (s @ ''.ipynb'')) = ''.ipynb'' \<Longrightarrow> s \<noteq> []"
  by (auto simp: name_suffix_def lower_def)

lemma convert_directory_Inr:
  assumes run: "convert_directory lib self input_dir output_dir recursive st = (Inr results, st')"
    and out: "out = (case output_dir of None \<Rightarrow> input_dir | Some dir \<Rightarrow> dir)"
    and fs1: "fs1 = (case output_dir of None \<Rightarrow> files st
                     | Some dir \<Rightarrow> snd (mkdir True True dir (files st)))"
    and nbs: "nbs = glob fs1 input_dir (if recursive then ''**/*.ipynb'' else ''*.ipynb'')"
  shows "\<exists>st1. printed st1 = printed st \<and>
     (if nbs = [] then results = [] \<and> st' = print (NoNotebooksFound input_dir) st1
      else convert_directory_loop lib self input_dir out nbs []
             (print (Found (length nbs)) st1) = (results, st'))"
proof -
  from run have d: "is_dir (files st) input_dir"
    by (auto simp: convert_directory_def split: if_splits)
  have "\<exists>st1. printed st1 = printed st \<and>
      convert_directory lib self input_dir output_dir recursive st =
      (if nbs = [] then (Inr [], print (NoNotebooksFound input_dir) st1)
       else (case convert_directory_loop lib self input_dir out nbs []
                       (print (Found (length nbs)) st1) of
                  (converted_files, st2) \<Rightarrow> (Inr converted_files, st2)))"
  proof (cases output_dir)
    case None
    then show ?thesis
      unfolding nbs fs1 out
      by (intro exI[of _ st]) (simp add: convert_directory_valid(1)[OF d] Let_def)
  next
    case (Some dir)
    obtain mr fs' where mk: "mkdir True True dir (files st) = (mr, fs')" by force
    with run Some d have "mr = None"
      by (cases mr) (auto simp: convert_directory_valid(2))
    with mk Some show ?thesis
      unfolding nbs fs1 out
      by (intro exI[of _ "st\<lparr>files := fs'\<rparr>"])
         (simp add: convert_directory_valid(3)[OF d] Let_def)
  qed
  then obtain st1 where p1: "printed st1 = printed st"
    and cd: "convert_directory lib self input_dir output_dir recursive st =
      (if nbs = [] then (Inr [], print (NoNotebooksFound input_dir) st1)
       else (case convert_directory_loop lib self input_dir out nbs []
                       (print (Found (length nbs)) st1) of
                  (converted_files, st2) \<Rightarrow> (Inr converted_files, st2)))" by blast
  show ?thesis
  proof (cases "nbs = []")
    case True
    with run cd p1 show ?thesis by (intro exI[of _ st1]) auto
  next
    case False
    with run cd p1 show ?thesis by (intro exI[of _ st1]) (auto split: prod.splits)
  qed
qed

lemma glob_enumeration:
  "f \<in> set (glob fs input_dir (if recursive then ''**/*.ipynb'' else ''*.ipynb'')) \<longleftrightarrow>
      (\<exists>ds s. f = input_dir @ ds @ [s @ ''.ipynb''] \<and> path_exists fs f \<and>
         (\<forall>r. r \<noteq> [] \<and> prefix r ds \<longrightarrow> is_dir fs (input_dir @ r)) \<and>
         (recursive \<or> ds = []))"
proof (cases recursive)
  case True
  then show ?thesis by (simp add: glob_recursive)
next
  case False
  have "(\<exists>s. f = input_dir @ [s @ ''.ipynb''] \<and> path_exists fs f) \<longleftrightarrow>
    (\<exists>ds s. f = input_dir @ ds @ [s @ ''.ipynb''] \<and> path_exists fs f \<and>
       (\<forall>r. r \<noteq> [] \<and> prefix r ds \<longrightarrow> is_dir fs (input_dir @ r)) \<and> ds = [])"
    by auto
  with False show ?thesis by (simp add: glob_plain)
qed

section \<open>The claims\<close>

text \<open>
  Claim C1. \<^verbatim>\<open>convert_single_file\<close> on a path that does not exist raises
  \<^verbatim>\<open>FileNotFoundError\<close>; on an existing path whose suffix, in lower case, is not
  \<open>.ipynb\<close> it raises \<^verbatim>\<open>ValueError\<close>. In both cases the state returned is the
  state given: no file is written (and nothing is printed).
\<close>

theorem convert_single_file_rejects:
  "(\<not> path_exists (files st) input_path \<longrightarrow>
      convert_single_file lib self input_path output_path st = (Inl FileNotFoundError, st)) \<and>
   (path_exists (files st) input_path \<and> lower (path_suffix input_path) \<noteq> ''.ipynb'' \<longrightarrow>
      convert_single_file lib self input_path output_path st = (Inl ValueError, st))"
  by (simp add: convert_single_file_def)

theorem convert_single_file_rejects_witness:
  "\<not> path_exists (files sample_state) [''work'', ''missing.ipynb''] \<and>
   convert_single_file sample_library (init True True False ''classic'')
     [''work'', ''missing.ipynb''] None sample_state = (Inl FileNotFoundError, sample_state) \<and>
   path_exists (files sample_state) [''work'', ''notes.txt''] \<and>
   lower (path_suffix [''work'', ''notes.txt'']) \<noteq> ''.ipynb'' \<and>
   convert_single_file sample_library (init True True False ''classic'')
     [''work'', ''notes.txt''] (Some [''work'', ''notes.html'']) sample_state
       = (Inl ValueError, sample_state)"
proof -
  have a: "\<not> path_exists (files sample_state) [''work'', ''missing.ipynb'']"
    by code_simp
  have b: "path_exists (files sample_state) [''work'', ''notes.txt'']"
    by code_simp
  have c: "lower (path_suffix [''work'', ''notes.txt'']) \<noteq> ''.ipynb''"
    by code_simp
  from a b c
    convert_single_file_rejects[of sample_state "[''work'', ''missing.ipynb'']"
      sample_library "init True True False ''classic''" None]
    convert_single_file_rejects[of sample_state "[''work'', ''notes.txt'']"
      sample_library "init True True False ''classic''" "Some [''work'', ''notes.html'']"]
  show ?thesis by simp
qed

text \<open>
  Claim C10. The extension check ignores case: for an existing input path whose suffix
  is \<open>.ipynb\<close> after lower-casing (\<open>.IPYNB\<close>, \<open>.Ipynb\<close>, ...), the call does not raise
  \<^verbatim>\<open>ValueError\<close>; it prints the line that follows the checks and its outcome is the
  outcome of the \<^verbatim>\<open>try\<close> block, run on the output path (the one given, or the input
  with \<open>.html\<close> for its suffix).
\<close>

theorem extension_check_ignores_case:
  assumes "path_exists (files st) input_path" "lower (path_suffix input_path) = ''.ipynb''"
  shows "fst (convert_single_file lib self input_path output_path st) \<noteq> Inl ValueError \<and>
     Converting input_path \<in> set (printed (snd (convert_single_file lib self input_path output_path st))) \<and>
     fst (convert_single_file lib self input_path output_path st) =
       fst (convert_single_file_try lib self input_path
             (case output_path of None \<Rightarrow> parent input_path @ [stem input_path @ ''.html'']
                                | Some p \<Rightarrow> p)
             (print (Converting input_path) st))"
proof -
  let ?out = "case output_path of None \<Rightarrow> parent input_path @ [stem input_path @ ''.html'']
                                | Some p \<Rightarrow> p"
  obtain r st2 where t: "convert_single_file_try lib self input_path ?out
      (print (Converting input_path) st) = (r, st2)" by force
  from try_printed[OF t] have "Converting input_path \<in> set (printed st2)"
    by (auto simp: prefix_def)
  moreover have "r \<noteq> Inl ValueError" using t try_Inl by blast
  ultimately show ?thesis
    unfolding convert_single_file_checked[OF assms] t
    by (cases r) auto
qed

theorem extension_check_ignores_case_witness:
  "path_exists (files sample_state) [''work'', ''sub'', ''B.IPYNB''] \<and>
   lower (path_suffix [''work'', ''sub'', ''B.IPYNB'']) = ''.ipynb'' \<and>
   fst (convert_single_file sample_library (init True True False ''classic'')
     [''work'', ''sub'', ''B.IPYNB''] None sample_state) \<noteq> Inl ValueError \<and>
   fst (convert_single_file sample_library (init True True False ''classic'')
     [''work'', ''sub'', ''B.IPYNB''] None sample_state) = Inr [''work'', ''sub'', ''B.html'']"
proof -
  have a: "path_exists (files sample_state) [''work'', ''sub'', ''B.IPYNB'']"
    by code_simp
  have b: "lower (path_suffix [''work'', ''sub'', ''B.IPYNB'']) = ''.ipynb''"
    by code_simp
  have c: "fst (convert_single_file sample_library (init True True False ''classic'')
     [''work'', ''sub'', ''B.IPYNB''] None sample_state) = Inr [''work'', ''sub'', ''B.html'']"
    by code_simp
  have d: "fst (convert_single_file sample_library (init True True False ''classic'')
     [''work'', ''sub'', ''B.IPYNB''] None sample_state) \<noteq> Inl ValueError"
    using extension_check_ignores_case[OF a b, of sample_library
      "init True True False ''classic''" None] by (rule conjunct1)
  from a b d c show ?thesis by (intro conjI)
qed

text \<open>
  Claim C4. A valid notebook converted with no output path: the file exists with a suffix
  that is \<open>.ipynb\<close> in lower case, its content is read by the notebook reader, and the
  notebook (executed first, if the converter is set to) is rendered by the exporter. The
  file system lets the result be written: the directory of the input is a directory, no
  directory has the name of the HTML file, and the resources, if any, can be put into their
  directory. Then the call returns the input path with its suffix replaced by \<open>.html\<close>,
  that file holds the enhanced HTML, and every other path whose entry has changed is the
  resource directory or a resource in it: exactly one HTML file has been produced.
\<close>

theorem default_output_path:
  assumes c: "lookup (files st) input_path = Some (File content)"
    and x: "lower (path_suffix input_path) = ''.ipynb''"
    and n: "nbformat_read lib content = Inr nb0"
    and e: "from_notebook_node lib (html_exporter self)
              (if execute_notebook self then snd (preprocess lib nb0 (parent input_path)) else nb0)
            = Inr (body, res)"
    and o: "out = parent input_path @ [stem input_path @ ''.html'']"
    and o1: "\<not> is_dir (files st) out"
    and o2: "is_dir (files st) (parent input_path)"
    and s1: "outputs res \<noteq> [] \<longrightarrow> \<not> is_file (files st) (side_car out) \<and>
      (\<forall>k \<in> fst ` set (outputs res). \<not> is_dir (files st) (side_car out @ [k]))"
  shows "\<exists>st'. convert_single_file lib self input_path None st = (Inr out, st') \<and>
     lookup (files st') out = Some (File (p_enhance_html_output lib body input_path)) \<and>
     (\<forall>q. lookup (files st') q \<noteq> lookup (files st) q \<longrightarrow>
        q = out \<or> (outputs res \<noteq> [] \<and>
          (q = side_car out \<or> q \<in> (\<lambda>k. side_car out @ [k]) ` fst ` set (outputs res))))"
proof -
  have po: "parent out = parent input_path" by (simp add: o parent_def)
  from convert_single_file_total[OF c x n e, of out None] o o1 o2 s1 po
  obtain st' where r: "convert_single_file lib self input_path None st = (Inr out, st')"
    by auto
  note t = convert_single_file_Inr(4)[OF r]
  have c': "lookup (files (print (Converting input_path) st)) input_path = Some (File content)"
    using c by simp
  note eff = try_effects[OF t c' n e]
  have "lookup (files st') out = Some (File (p_enhance_html_output lib body input_path))"
    by (rule eff(7))
  moreover have "\<forall>q. lookup (files st') q \<noteq> lookup (files st) q \<longrightarrow>
        q = out \<or> (outputs res \<noteq> [] \<and>
          (q = side_car out \<or> q \<in> (\<lambda>k. side_car out @ [k]) ` fst ` set (outputs res)))"
  proof (intro allI impI)
    fix q assume d: "lookup (files st') q \<noteq> lookup (files st) q"
    show "q = out \<or> (outputs res \<noteq> [] \<and>
          (q = side_car out \<or> q \<in> (\<lambda>k. side_car out @ [k]) ` fst ` set (outputs res)))"
    proof (cases "outputs res = []")
      case True
      with eff(8)[of q] d show ?thesis by auto
    next
      case False
      with eff(12)[of q] d show ?thesis by auto
    qed
  qed
  ultimately show ?thesis using r by blast
qed

theorem default_output_path_witness:
  "\<exists>st'. convert_single_file sample_library (init True True False ''classic'')
       [''work'', ''a.ipynb''] None sample_state = (Inr [''work'', ''a.html''], st') \<and>
     lookup (files st') [''work'', ''a.html''] = Some (File ''<html>{}</html>'') \<and>
     (\<forall>q. lookup (files st') q \<noteq> lookup (files sample_state) q \<longrightarrow> q = [''work'', ''a.html''])"
proof -
  let ?self = "init True True False ''classic''"
  have c: "lookup (files sample_state) [''work'', ''a.ipynb''] = Some (File ''{}'')"
    by code_simp
  have x: "lower (path_suffix [''work'', ''a.ipynb'']) = ''.ipynb''"
    by code_simp
  have n: "nbformat_read sample_library ''{}'' = Inr ''{}''"
    by code_simp
  have e: "from_notebook_node sample_library (html_exporter ?self)
      (if execute_notebook ?self
       then snd (preprocess sample_library ''{}'' (parent [''work'', ''a.ipynb''])) else ''{}'')
      = Inr (''<html>{}</html>'', \<lparr>outputs = []\<rparr>)"
    by code_simp
  have o: "[''work'', ''a.html''] = parent [''work'', ''a.ipynb''] @ [stem [''work'', ''a.ipynb''] @ ''.html'']"
    by code_simp
  have o1: "\<not> is_dir (files sample_state) [''work'', ''a.html'']"
    by code_simp
  have o2: "is_dir (files sample_state) (parent [''work'', ''a.ipynb''])"
    by code_simp
  have s: "outputs \<lparr>outputs = []\<rparr> \<noteq> [] \<longrightarrow>
      \<not> is_file (files sample_state) (side_car [''work'', ''a.html'']) \<and>
      (\<forall>k \<in> fst ` set (outputs \<lparr>outputs = []\<rparr>).
         \<not> is_dir (files sample_state) (side_car [''work'', ''a.html''] @ [k]))"
    by simp
  have h: "p_enhance_html_output sample_library ''<html>{}</html>'' [''work'', ''a.ipynb'']
      = ''<html>{}</html>''"
    by code_simp
  from default_output_path[OF c x n e o o1 o2 s] show ?thesis
    unfolding h by simp
qed

text \<open>
  Claim C5. A call that returns, for a notebook whose export has a non-empty resource
  mapping (a dictionary: its file names are distinct): the HTML file is at the returned
  path, the directory \<open>side_car out\<close>, named after the stem of the HTML file with \<open>_files\<close>
  appended and placed in the directory of the HTML file, is a directory, and every
  resource of the mapping is a file in it, under its file name and with its payload.
\<close>

theorem resources_in_side_car:
  assumes r: "convert_single_file lib self input_path output_path st = (Inr out, st')"
    and c: "lookup (files st) input_path = Some (File content)"
    and n: "nbformat_read lib content = Inr nb0"
    and e: "from_notebook_node lib (html_exporter self)
              (if execute_notebook self then snd (preprocess lib nb0 (parent input_path)) else nb0)
            = Inr (body, res)"
    and ne: "outputs res \<noteq> []"
    and d: "distinct (map fst (outputs res))"
    and kv: "(filename, data) \<in> set (outputs res)"
  shows "lookup (files st') out = Some (File (p_enhance_html_output lib body input_path)) \<and>
     side_car out = parent out @ [stem out @ ''_files''] \<and>
     is_dir (files st') (side_car out) \<and>
     lookup (files st') (side_car out @ [filename]) = Some (File data)"
proof -
  note t = convert_single_file_Inr(4)[OF r]
  have c': "lookup (files (print (Converting input_path) st)) input_path = Some (File content)"
    using c by simp
  note eff = try_effects[OF t c' n e]
  have "distinct (map fst (rev (outputs res)))" using d by (simp add: rev_map[symmetric])
  moreover have "(filename, data) \<in> set (rev (outputs res))" using kv by simp
  ultimately have "map_of (rev (outputs res)) filename = Some data" by (rule map_of_is_SomeI)
  with eff(11)[OF ne, of filename]
  have "lookup (files st') (side_car out @ [filename]) = Some (File data)" by simp
  with eff(7) eff(9)[OF ne] show ?thesis by (simp add: side_car_def)
qed

theorem resources_in_side_car_witness:
  "lookup (files (snd (convert_single_file sample_library (init False True False ''classic'')
       [''work'', ''a.ipynb''] None sample_state))) [''work'', ''a.html'']
     = Some (File ''<html>{}</html>'') \<and>
   side_car [''work'', ''a.html''] = [''work'', ''a_files''] \<and>
   is_dir (files (snd (convert_single_file sample_library (init False True False ''classic'')
       [''work'', ''a.ipynb''] None sample_state))) [''work'', ''a_files''] \<and>
   lookup (files (snd (convert_single_file sample_library (init False True False ''classic'')
       [''work'', ''a.ipynb''] None sample_state))) [''work'', ''a_files'', ''output_0_0.png'']
     = Some (File ''PNG'')"
proof -
  let ?self = "init False True False ''classic''"
  let ?run = "convert_single_file sample_library ?self [''work'', ''a.ipynb''] None sample_state"
  have r0: "fst ?run = Inr [''work'', ''a.html'']"
    by code_simp
  have r: "?run = (Inr [''work'', ''a.html''], snd ?run)"
    using r0 by (metis prod.collapse)
  have c: "lookup (files sample_state) [''work'', ''a.ipynb''] = Some (File ''{}'')"
    by code_simp
  have n: "nbformat_read sample_library ''{}'' = Inr ''{}''"
    by code_simp
  have e: "from_notebook_node sample_library (html_exporter ?self)
      (if execute_notebook ?self
       then snd (preprocess sample_library ''{}'' (parent [''work'', ''a.ipynb''])) else ''{}'')
      = Inr (''<html>{}</html>'', \<lparr>outputs = [(''output_0_0.png'', ''PNG'')]\<rparr>)"
    by code_simp
  have ne: "outputs \<lparr>outputs = [(''output_0_0.png'', ''PNG'')]\<rparr> \<noteq> []"
    by simp
  have d: "distinct (map fst (outputs \<lparr>outputs = [(''output_0_0.png'', ''PNG'')]\<rparr>))"
    by simp
  have kv: "(''output_0_0.png'', ''PNG'') \<in> set (outputs \<lparr>outputs = [(''output_0_0.png'', ''PNG'')]\<rparr>)"
    by simp
  have h: "p_enhance_html_output sample_library ''<html>{}</html>'' [''work'', ''a.ipynb'']
      = ''<html>{}</html>''"
    by code_simp
  have sc: "side_car [''work'', ''a.html''] = [''work'', ''a_files'']"
    by code_simp
  from resources_in_side_car[OF r c n e ne d kv] show ?thesis
    unfolding h sc by simp
qed

text \<open>
  Claim C3. With \<^verbatim>\<open>execute_notebook\<close> set, a failing execution is not fatal. When
  the notebook can be read, the execution raises \<open>m\<close> and leaves the notebook object as
  \<open>nb'\<close>, the exporter renders \<open>nb'\<close> and the file system lets the result be written, the call
  returns the output path, the HTML file holds the rendering of \<open>nb'\<close>, and the lines printed
  are the start of the conversion, the start of the execution, the warning with \<open>m\<close>, the
  notice that the existing outputs are used, and the success line.
\<close>

theorem execution_failure_not_fatal:
  assumes c: "lookup (files st) input_path = Some (File content)"
    and x: "lower (path_suffix input_path) = ''.ipynb''"
    and ex: "execute_notebook self"
    and n: "nbformat_read lib content = Inr nb0"
    and pp: "preprocess lib nb0 (parent input_path) = (Some m, nb')"
    and e: "from_notebook_node lib (html_exporter self) nb' = Inr (body, res)"
    and o: "out = (case output_path of None \<Rightarrow> parent input_path @ [stem input_path @ ''.html'']
                                     | Some p \<Rightarrow> p)"
    and o1: "\<not> is_dir (files st) out"
    and o2: "is_dir (files st) (parent out)"
    and s: "outputs res \<noteq> [] \<longrightarrow> \<not> is_file (files st) (side_car out) \<and>
      (\<forall>k \<in> fst ` set (outputs res). \<not> is_dir (files st) (side_car out @ [k]))"
  shows "\<exists>st'. convert_single_file lib self input_path output_path st = (Inr out, st') \<and>
     lookup (files st') out = Some (File (p_enhance_html_output lib body input_path)) \<and>
     printed st' = printed st @
       [Converting input_path, Executing input_path, ExecuteWarning m, Proceeding, Converted out]"
proof -
  have e': "from_notebook_node lib (html_exporter self)
              (if execute_notebook self then snd (preprocess lib nb0 (parent input_path)) else nb0)
            = Inr (body, res)"
    using e ex pp by simp
  from convert_single_file_total[OF c x n e' o o1 o2] s
  obtain st' where r: "convert_single_file lib self input_path output_path st = (Inr out, st')"
    by auto
  note t = convert_single_file_Inr(4)[OF r]
  have c': "lookup (files (print (Converting input_path) st)) input_path = Some (File content)"
    using c by simp
  note eff = try_effects[OF t c' n e']
  have "load_lines lib self input_path nb0 = [Executing input_path, ExecuteWarning m, Proceeding]"
    using ex pp by (simp add: load_lines_def)
  with eff(6) have "printed st' = printed st @
       [Converting input_path, Executing input_path, ExecuteWarning m, Proceeding, Converted out]"
    by simp
  with r eff(7) show ?thesis by blast
qed

theorem execution_failure_not_fatal_witness:
  "\<exists>st'. convert_single_file sample_library (init True True True ''classic'')
       [''work'', ''a.ipynb''] None sample_state = (Inr [''work'', ''a.html''], st') \<and>
     lookup (files st') [''work'', ''a.html''] = Some (File ''<html>{}</html>'') \<and>
     printed st' = [Converting [''work'', ''a.ipynb''], Executing [''work'', ''a.ipynb''],
        ExecuteWarning ''DeadKernelError'', Proceeding, Converted [''work'', ''a.html'']]"
proof -
  let ?self = "init True True True ''classic''"
  have c: "lookup (files sample_state) [''work'', ''a.ipynb''] = Some (File ''{}'')"
    by code_simp
  have x: "lower (path_suffix [''work'', ''a.ipynb'']) = ''.ipynb''"
    by code_simp
  have ex: "execute_notebook ?self"
    by code_simp
  have n: "nbformat_read sample_library ''{}'' = Inr ''{}''"
    by code_simp
  have pp: "preprocess sample_library ''{}'' (parent [''work'', ''a.ipynb''])
      = (Some ''DeadKernelError'', ''{}'')"
    by code_simp
  have e: "from_notebook_node sample_library (html_exporter ?self) ''{}''
      = Inr (''<html>{}</html>'', \<lparr>outputs = []\<rparr>)"
    by code_simp
  have o: "[''work'', ''a.html''] =
      (case None of None \<Rightarrow> parent [''work'', ''a.ipynb''] @ [stem [''work'', ''a.ipynb''] @ ''.html'']
                  | Some p \<Rightarrow> p)"
    by code_simp
  have o1: "\<not> is_dir (files sample_state) [''work'', ''a.html'']"
    by code_simp
  have o2: "is_dir (files sample_state) (parent [''work'', ''a.html''])"
    by code_simp
  have s: "outputs \<lparr>outputs = []\<rparr> \<noteq> [] \<longrightarrow>
      \<not> is_file (files sample_state) (side_car [''work'', ''a.html'']) \<and>
      (\<forall>k \<in> fst ` set (outputs \<lparr>outputs = []\<rparr>).
         \<not> is_dir (files sample_state) (side_car [''work'', ''a.html''] @ [k]))"
    by simp
  have h: "p_enhance_html_output sample_library ''<html>{}</html>'' [''work'', ''a.ipynb'']
      = ''<html>{}</html>''"
    by code_simp
  have p0: "printed sample_state = []"
    by code_simp
  from execution_failure_not_fatal[OF c x ex n pp e o o1 o2 s] show ?thesis
    unfolding h p0 by simp
qed

text \<open>
  Claim C6, as the code has it. \<^verbatim>\<open>convert_single_file\<close> creates no parent directory
  for the HTML file: with an output path whose parent directory does not exist the call
  raises and leaves the file system as it was. For a notebook that can be read and rendered,
  with no regular file on the way and nothing at the output path, the exception is the
  \<^verbatim>\<open>FileNotFoundError\<close> of opening the output file.
\<close>

theorem explicit_output_needs_parent:
  assumes np: "\<not> path_exists (files st) (parent out)"
  shows "\<exists>e st'. convert_single_file lib self input_path (Some out) st = (Inl e, st') \<and>
     files st' = files st \<and>
     (lower (path_suffix input_path) = ''.ipynb'' \<and>
      (\<exists>content nb0 body res. lookup (files st) input_path = Some (File content) \<and>
         nbformat_read lib content = Inr nb0 \<and>
         from_notebook_node lib (html_exporter self)
           (if execute_notebook self then snd (preprocess lib nb0 (parent input_path)) else nb0)
           = Inr (body, res)) \<and>
      \<not> path_exists (files st) out \<and>
      (\<forall>q. prefix q out \<longrightarrow> \<not> is_file (files st) q)
      \<longrightarrow> e = FileNotFoundError)"
proof -
  from np have nd: "\<not> is_dir (files st) (parent out)"
    by (simp add: path_exists_def is_dir_def)
  let ?st = "print (Converting input_path) st"
  obtain r st2 where t: "convert_single_file_try lib self input_path out ?st = (r, st2)"
    by force
  have nr: "r \<noteq> Inr p" for p
  proof
    assume "r = Inr p"
    with t try_Inr[of lib self input_path out ?st p st2] nd show False
      by (auto simp: open_write_Inr)
  qed
  then obtain e where re: "r = Inl e" by (cases r) auto
  have f2: "files st2 = files st"
    using try_Inl_files[OF t[unfolded re]] nd by simp
  show ?thesis
  proof (cases "path_exists (files st) input_path \<and> lower (path_suffix input_path) = ''.ipynb''")
    case False
    then show ?thesis
      by (auto simp: convert_single_file_def path_exists_def)
  next
    case True
    then have ch: "convert_single_file lib self input_path (Some out) st =
        (Inl e, print (ErrorConverting input_path e) st2)"
      using convert_single_file_checked[of st input_path lib self "Some out"] t re by simp
    have "e = FileNotFoundError"
      if v: "\<exists>content nb0 body res. lookup (files st) input_path = Some (File content) \<and>
         nbformat_read lib content = Inr nb0 \<and>
         from_notebook_node lib (html_exporter self)
           (if execute_notebook self then snd (preprocess lib nb0 (parent input_path)) else nb0)
           = Inr (body, res)"
       and ne: "\<not> path_exists (files st) out"
       and nf: "\<forall>q. prefix q out \<longrightarrow> \<not> is_file (files st) q"
    proof -
      from v obtain content nb0 body res where
        c: "lookup (files ?st) input_path = Some (File content)"
        and n: "nbformat_read lib content = Inr nb0"
        and ex: "from_notebook_node lib (html_exporter self)
           (if execute_notebook self then snd (preprocess lib nb0 (parent input_path)) else nb0)
           = Inr (body, res)" by auto
      from load_notebook_ok[OF c n, of self] obtain st1 where
        l: "load_notebook lib self input_path ?st =
          (Inr (if execute_notebook self then snd (preprocess lib nb0 (parent input_path))
                else nb0), st1)"
        and f1: "files st1 = files st" by auto
      have pe: "parent_error (files st) out = Some FileNotFoundError"
        using parent_error_clear[OF nf nd] .
      have "\<not> is_dir (files st) out"
        using ne by (simp add: path_exists_def is_dir_def)
      with pe have "open_write (files st) out (p_enhance_html_output lib body input_path)
          = Inl FileNotFoundError"
        by (simp add: open_write_def)
      with l ex f1 have "convert_single_file_try lib self input_path out ?st
          = (Inl FileNotFoundError, st1)"
        by (simp add: convert_single_file_try_def)
      with t re show ?thesis by simp
    qed
    with ch f2 show ?thesis by auto
  qed
qed

theorem explicit_output_needs_parent_witness:
  "\<exists>e st'. convert_single_file sample_library (init True True False ''classic'')
       [''work'', ''a.ipynb''] (Some [''out'', ''a.html'']) sample_state = (Inl e, st') \<and>
     files st' = files sample_state"
proof -
  have np: "\<not> path_exists (files sample_state) (parent [''out'', ''a.html''])"
    by code_simp
  from explicit_output_needs_parent[OF np, of sample_library "init True True False ''classic''"
      "[''work'', ''a.ipynb'']"]
  show ?thesis by blast
qed

text \<open>
  The claim as stated fails: the notebook \<open>work/a.ipynb\<close> converts to \<open>work/report.html\<close>,
  but with the output path \<open>out/a.html\<close>, whose parent does not exist, the call raises
  \<^verbatim>\<open>FileNotFoundError\<close> and creates nothing.
\<close>

theorem explicit_output_needs_parent_counterexample:
  "\<not> path_exists (files sample_state) (parent [''out'', ''a.html'']) \<and>
   fst (convert_single_file sample_library (init True True False ''classic'')
     [''work'', ''a.ipynb''] (Some [''out'', ''a.html'']) sample_state) = Inl FileNotFoundError \<and>
   files (snd (convert_single_file sample_library (init True True False ''classic'')
     [''work'', ''a.ipynb''] (Some [''out'', ''a.html'']) sample_state)) = files sample_state \<and>
   fst (convert_single_file sample_library (init True True False ''classic'')
     [''work'', ''a.ipynb''] (Some [''work'', ''report.html'']) sample_state)
     = Inr [''work'', ''report.html'']"
  by code_simp

text \<open>
  Claim C9. Converting twice with the same converter, without executing: when the first
  call has returned and the notebook file is still what it was (which is always so with
  the default output path), the second call returns the same path and the HTML file holds
  the same bytes after both calls; the second call changes no entry of the file system at
  all. The exporter and the HTML parser are functions in this model, so that the statement
  is about the converter's own steps.
\<close>

theorem conversion_idempotent:
  assumes r1: "convert_single_file lib self input_path output_path st = (Inr out, st1)"
    and same: "output_path = None \<or> lookup (files st1) input_path = lookup (files st) input_path"
    and noexec: "\<not> execute_notebook self"
  shows "\<exists>st2 html. convert_single_file lib self input_path output_path st1 = (Inr out, st2) \<and>
     lookup (files st1) out = Some (File html) \<and>
     lookup (files st2) out = Some (File html) \<and>
     (\<forall>q. lookup (files st2) q = lookup (files st1) q)"
proof -
  note A = convert_single_file_Inr[OF r1]
  let ?side = "side_car out"
  from try_valid[OF A(4)] obtain content nb0 body res where
    c: "lookup (files (print (Converting input_path) st)) input_path = Some (File content)"
    and n: "nbformat_read lib content = Inr nb0"
    and e: "from_notebook_node lib (html_exporter self)
              (if execute_notebook self then snd (preprocess lib nb0 (parent input_path)) else nb0)
            = Inr (body, res)" by blast
  note eff = try_effects[OF A(4) c n e]
  let ?html = "p_enhance_html_output lib body input_path"
  from c have c0: "lookup (files st) input_path = Some (File content)" by simp
  then have ine: "input_path \<noteq> []" by (auto simp: lookup_def)
  have fr: "lookup (files st1) q = lookup (files st) q"
    if "q \<noteq> out" "q \<noteq> ?side" "q \<notin> (\<lambda>k. ?side @ [k]) ` fst ` set (outputs res)" for q
  proof (cases "outputs res = []")
    case True
    from eff(8)[OF True that(1)] show ?thesis by simp
  next
    case False
    from eff(12)[OF False that] show ?thesis by simp
  qed
  have c1: "lookup (files st1) input_path = Some (File content)"
  proof (cases "output_path = None")
    case True
    with A(3) have o: "out = parent input_path @ [stem input_path @ ''.html'']" by simp
    then have po: "parent out = parent input_path" by (simp add: parent_def)
    have "input_path \<noteq> out" using html_neq[OF A(2)] o by simp
    moreover have "input_path \<noteq> ?side" using ipynb_not_side_car[OF A(2) po] .
    moreover have "input_path \<notin> (\<lambda>k. ?side @ [k]) ` fst ` set (outputs res)"
      using input_not_resource[OF ine po] by blast
    ultimately show ?thesis using fr c0 by simp
  next
    case False
    with same c0 show ?thesis by simp
  qed
  have o1: "\<not> is_dir (files st1) out" using eff(7) by (simp add: is_dir_def)
  have o2: "is_dir (files st1) (parent out)" using eff(5) .
  have s1: "\<not> is_file (files st1) ?side" if "outputs res \<noteq> []"
    using eff(9)[OF that] by (simp add: is_dir_def is_file_def)
  have rv: "lookup (files st1) (?side @ [k]) = Some (File v)"
    if "outputs res \<noteq> []" "map_of (rev (outputs res)) k = Some v" for k v
    using eff(11)[OF that(1), of k] that(2) by simp
  have s2: "\<forall>k \<in> fst ` set (outputs res). \<not> is_dir (files st1) (?side @ [k])"
    if ne: "outputs res \<noteq> []"
  proof
    fix k assume "k \<in> fst ` set (outputs res)"
    then have "\<exists>v. map_of (rev (outputs res)) k = Some v" by (rule map_of_rev_keys)
    then obtain v where "map_of (rev (outputs res)) k = Some v" ..
    from rv[OF ne this] show "\<not> is_dir (files st1) (?side @ [k])" by (simp add: is_dir_def)
  qed
  have "\<exists>st2. convert_single_file lib self input_path output_path st1 = (Inr out, st2)"
    using c1 A(2) n e A(3) o1 o2 s1 s2 by (rule convert_single_file_total)
  then obtain st2 where
    r2: "convert_single_file lib self input_path output_path st1 = (Inr out, st2)" ..
  note B = convert_single_file_Inr[OF r2]
  have c1': "lookup (files (print (Converting input_path) st1)) input_path = Some (File content)"
    using c1 by simp
  note eff2 = try_effects[OF B(4) c1' n e]
  have eq: "lookup (files st2) q = lookup (files st1) q" for q
  proof (cases "q = out")
    case True
    with eff(7) eff2(7) show ?thesis by simp
  next
    case qo: False
    show ?thesis
    proof (cases "outputs res = []")
      case True
      from eff2(8)[OF True qo] show ?thesis by simp
    next
      case ne: False
      show ?thesis
      proof (cases "q = ?side")
        case True
        with eff(9)[OF ne] eff2(9)[OF ne] show ?thesis by (simp add: is_dir_def)
      next
        case qs: False
        show ?thesis
        proof (cases "q \<in> (\<lambda>k. ?side @ [k]) ` fst ` set (outputs res)")
          case True
          then obtain k where k: "k \<in> fst ` set (outputs res)" and q: "q = ?side @ [k]"
            by blast
          from k have "\<exists>v. map_of (rev (outputs res)) k = Some v" by (rule map_of_rev_keys)
          then obtain v where v: "map_of (rev (outputs res)) k = Some v" ..
          from eff2(11)[OF ne, of k] v have "lookup (files st2) (?side @ [k]) = Some (File v)"
            by simp
          with rv[OF ne v] q show ?thesis by simp
        next
          case False
          from eff2(12)[OF ne qo qs False] show ?thesis by simp
        qed
      qed
    qed
  qed
  from r2 eff(7) eff2(7) eq show ?thesis
    by (intro exI[of _ st2] exI[of _ ?html]) simp
qed

theorem conversion_idempotent_witness:
  "\<exists>st2. convert_single_file sample_library (init False True False ''classic'')
       [''work'', ''a.ipynb''] None
       (snd (convert_single_file sample_library (init False True False ''classic'')
          [''work'', ''a.ipynb''] None sample_state))
     = (Inr [''work'', ''a.html''], st2) \<and>
     lookup (files st2) [''work'', ''a.html''] = Some (File ''<html>{}</html>'') \<and>
     lookup (files (snd (convert_single_file sample_library (init False True False ''classic'')
          [''work'', ''a.ipynb''] None sample_state))) [''work'', ''a.html'']
       = Some (File ''<html>{}</html>'')"
proof -
  let ?self = "init False True False ''classic''"
  let ?run = "convert_single_file sample_library ?self [''work'', ''a.ipynb''] None sample_state"
  have r0: "fst ?run = Inr [''work'', ''a.html'']"
    by code_simp
  have r: "?run = (Inr [''work'', ''a.html''], snd ?run)"
    using r0 by (metis prod.collapse)
  have nx: "\<not> execute_notebook ?self"
    by code_simp
  have h: "lookup (files (snd ?run)) [''work'', ''a.html''] = Some (File ''<html>{}</html>'')"
    by code_simp
  from conversion_idempotent[OF r _ nx] h show ?thesis by auto
qed

text \<open>
  Claim C7, as the code has it. When \<^verbatim>\<open>input_dir\<close> does not exist or is not a
  directory, \<^verbatim>\<open>convert_directory\<close> raises \<^verbatim>\<open>NotADirectoryError\<close> and the state
  is unchanged: nothing is created or written. For a valid \<^verbatim>\<open>input_dir\<close> the only
  exception the call can raise is the one of creating the given output directory, which
  needs a regular file on the path of that directory; with no output directory, or with no
  regular file on its path, the call returns a list.
\<close>

theorem convert_directory_raises:
  "(\<not> path_exists (files st) input_dir \<or> \<not> is_dir (files st) input_dir \<longrightarrow>
      convert_directory lib self input_dir output_dir recursive st = (Inl NotADirectoryError, st)) \<and>
   (is_dir (files st) input_dir \<and>
    fst (convert_directory lib self input_dir output_dir recursive st) = Inl e \<longrightarrow>
      (\<exists>dir. output_dir = Some dir \<and> fst (mkdir True True dir (files st)) = Some e \<and>
         (\<exists>q. prefix q dir \<and> is_file (files st) q))) \<and>
   (is_dir (files st) input_dir \<and>
    (\<forall>dir q. output_dir = Some dir \<and> prefix q dir \<longrightarrow> \<not> is_file (files st) q) \<longrightarrow>
      (\<exists>results st'. convert_directory lib self input_dir output_dir recursive st
         = (Inr results, st')))"
proof (intro conjI impI)
  assume "\<not> path_exists (files st) input_dir \<or> \<not> is_dir (files st) input_dir"
  then show "convert_directory lib self input_dir output_dir recursive st
      = (Inl NotADirectoryError, st)"
    by (auto simp: convert_directory_def)
next
  assume a: "is_dir (files st) input_dir \<and>
    fst (convert_directory lib self input_dir output_dir recursive st) = Inl e"
  then have d: "is_dir (files st) input_dir" by simp
  show "\<exists>dir. output_dir = Some dir \<and> fst (mkdir True True dir (files st)) = Some e \<and>
         (\<exists>q. prefix q dir \<and> is_file (files st) q)"
  proof (cases output_dir)
    case None
    with convert_directory_returns[OF d, of None lib self recursive] a show ?thesis by auto
  next
    case (Some dir)
    obtain r fs' where mk: "mkdir True True dir (files st) = (r, fs')" by force
    show ?thesis
    proof (cases r)
      case None
      with convert_directory_returns[OF d, of output_dir lib self recursive] Some mk a
      show ?thesis by auto
    next
      case e': (Some e')
      with convert_directory_valid(2)[OF d, of dir e' fs' lib self recursive] mk Some a
      have "e' = e" by simp
      moreover have "\<exists>q. prefix q dir \<and> is_file (files st) q"
      proof (rule ccontr)
        assume "\<not> (\<exists>q. prefix q dir \<and> is_file (files st) q)"
        then have "\<forall>q. prefix q dir \<longrightarrow> \<not> is_file (files st) q" by blast
        from mkdir_parents_total[OF this] mk e' show False by simp
      qed
      ultimately show ?thesis using Some mk e' by simp
    qed
  qed
next
  assume a: "is_dir (files st) input_dir \<and>
    (\<forall>dir q. output_dir = Some dir \<and> prefix q dir \<longrightarrow> \<not> is_file (files st) q)"
  then have d: "is_dir (files st) input_dir" by simp
  have "output_dir = None \<or>
     (\<exists>dir fs'. output_dir = Some dir \<and> mkdir True True dir (files st) = (None, fs'))"
  proof (cases output_dir)
    case None
    then show ?thesis by simp
  next
    case (Some dir)
    with a have "\<forall>q. prefix q dir \<longrightarrow> \<not> is_file (files st) q" by simp
    from mkdir_parents_total[OF this] Some show ?thesis by simp
  qed
  with d show "\<exists>results st'. convert_directory lib self input_dir output_dir recursive st
         = (Inr results, st')"
    by (rule convert_directory_returns)
qed


theorem convert_directory_raises_witness:
  "convert_directory sample_library (init True True False ''classic'') [''nowhere''] None False
      sample_state = (Inl NotADirectoryError, sample_state) \<and>
   (\<exists>results st'. convert_directory sample_library (init True True False ''classic'') [''work'']
      (Some [''html'']) False sample_state = (Inr results, st'))"
proof -
  have a: "\<not> path_exists (files sample_state) [''nowhere''] \<or>
      \<not> is_dir (files sample_state) [''nowhere'']"
    by code_simp
  have b: "is_dir (files sample_state) [''work'']"
    by code_simp
  have c: "\<not> is_file (files sample_state) q" if "prefix q [''html'']" for q
  proof -
    from that have "q \<in> set (prefixes [''html''])" by (simp only: in_set_prefixes)
    then have "q = [] \<or> q = [''html'']" by simp
    moreover have "\<not> is_file (files sample_state) []" by code_simp
    moreover have "\<not> is_file (files sample_state) [''html'']" by code_simp
    ultimately show ?thesis by auto
  qed
  note t = convert_directory_raises[of sample_state _ sample_library
      "init True True False ''classic''" _ False]
  from t[of "[''nowhere'']" None] a
  have 1: "convert_directory sample_library (init True True False ''classic'') [''nowhere'']
      None False sample_state = (Inl NotADirectoryError, sample_state)" by blast
  from t[of "[''work'']" "Some [''html'']"] b c
  have 2: "\<exists>results st'. convert_directory sample_library (init True True False ''classic'')
      [''work''] (Some [''html'']) False sample_state = (Inr results, st')" by auto
  from 1 2 show ?thesis by (rule conjI)
qed

text \<open>
  The claim as stated fails in its second half: \<open>work\<close> is a valid input directory, and
  with the output directory \<open>work/notes.txt/html\<close>, below a regular file, the call raises
  \<^verbatim>\<open>NotADirectoryError\<close>.
\<close>

theorem convert_directory_raises_counterexample:
  "path_exists (files sample_state) [''work''] \<and> is_dir (files sample_state) [''work''] \<and>
   fst (convert_directory sample_library (init True True False ''classic'') [''work'']
          (Some [''work'', ''notes.txt'', ''html'']) False sample_state) = Inl NotADirectoryError"
  by code_simp


text \<open>
  Claim C2. For an existing input directory (and an output directory that is absent or
  can be created), \<^verbatim>\<open>convert_directory\<close> returns a list and raises for no notebook:
  the loop body is run once for every enumerated notebook, the list returned holds exactly
  the paths of the bodies that succeeded, in order, and every body that raised is reported by
  one printed line with its notebook and its exception. The numbers of results and of
  reported failures add up to the number of notebooks.
\<close>

theorem convert_directory_best_effort:
  assumes d: "is_dir (files st) input_dir"
    and m: "output_dir = None \<or>
      (\<exists>dir fs'. output_dir = Some dir \<and> mkdir True True dir (files st) = (None, fs'))"
  shows "\<exists>results st'.
     convert_directory lib self input_dir output_dir recursive st = (Inr results, st') \<and>
     (let out = (case output_dir of None \<Rightarrow> input_dir | Some dir \<Rightarrow> dir);
          st1 = (case output_dir of None \<Rightarrow> st
                 | Some dir \<Rightarrow> st\<lparr>files := snd (mkdir True True dir (files st))\<rparr>);
          notebook_files = glob (files st1) input_dir
                             (if recursive then ''**/*.ipynb'' else ''*.ipynb'');
          os = batch_outcomes lib self input_dir out notebook_files
                 (print (Found (length notebook_files)) st1)
      in map fst os = notebook_files \<and>
         results = successes os \<and>
         failure_lines (printed st') = failure_lines (printed st) @ failures os \<and>
         length results + length (failures os) = length notebook_files)"
proof -
  define out where "out = (case output_dir of None \<Rightarrow> input_dir | Some dir \<Rightarrow> dir)"
  define st1 where "st1 = (case output_dir of None \<Rightarrow> st
                 | Some dir \<Rightarrow> st\<lparr>files := snd (mkdir True True dir (files st))\<rparr>)"
  define nbs where "nbs = glob (files st1) input_dir
                             (if recursive then ''**/*.ipynb'' else ''*.ipynb'')"
  define os where "os = batch_outcomes lib self input_dir out nbs
                 (print (Found (length nbs)) st1)"
  have p1: "printed st1 = printed st" by (simp add: st1_def split: option.splits)
  have cd: "convert_directory lib self input_dir output_dir recursive st =
      (if nbs = [] then (Inr [], print (NoNotebooksFound input_dir) st1)
       else (case convert_directory_loop lib self input_dir out nbs []
                       (print (Found (length nbs)) st1) of
                  (converted_files, st2) \<Rightarrow> (Inr converted_files, st2)))"
  proof (cases output_dir)
    case None
    then show ?thesis
      unfolding nbs_def st1_def out_def
      by (simp add: convert_directory_valid(1)[OF d] Let_def)
  next
    case (Some dir)
    with m obtain fs' where mk: "mkdir True True dir (files st) = (None, fs')" by auto
    with Some show ?thesis
      unfolding nbs_def st1_def out_def
      by (simp add: convert_directory_valid(3)[OF d mk] Let_def)
  qed
  obtain results st' where l: "convert_directory_loop lib self input_dir out nbs []
      (print (Found (length nbs)) st1) = (results, st')" by force
  note lo = loop_outcomes[OF l, folded os_def]
  have len: "length (successes os) + length (failures os) = length nbs"
    using successes_failures_length[of os] lo by (metis length_map)
  show ?thesis
  proof (cases "nbs = []")
    case True
    then have "os = []" by (simp add: os_def)
    with True cd p1 show ?thesis
      unfolding Let_def out_def[symmetric] st1_def[symmetric] nbs_def[symmetric] os_def[symmetric]
      by (simp add: failure_lines_append)
  next
    case False
    with cd l have "convert_directory lib self input_dir output_dir recursive st
        = (Inr results, st')" by simp
    moreover from lo p1 have "failure_lines (printed st') = failure_lines (printed st) @ failures os"
      by (simp add: failure_lines_append)
    ultimately show ?thesis
      unfolding Let_def out_def[symmetric] st1_def[symmetric] nbs_def[symmetric] os_def[symmetric]
      using lo len by simp
  qed
qed

theorem convert_directory_best_effort_witness:
  "\<exists>st'. convert_directory sample_library (init True True False ''classic'') [''work'']
       (Some [''html'']) True sample_state
     = (Inr [[''html'', ''a.html''], [''html'', ''sub'', ''c.html'']], st') \<and>
     failure_lines (printed st') = [([''work'', ''broken.ipynb''], External ''NotJSONError'')]"
proof -
  let ?run = "convert_directory sample_library (init True True False ''classic'') [''work'']
       (Some [''html'']) True sample_state"
  have d: "is_dir (files sample_state) [''work'']"
    by code_simp
  have m0: "fst (mkdir True True [''html''] (files sample_state)) = None"
    by code_simp
  then have m: "Some [''html''] = None \<or>
      (\<exists>dir fs'. Some [''html''] = Some dir \<and>
         mkdir True True dir (files sample_state) = (None, fs'))"
    by (metis prod.collapse)
  from convert_directory_best_effort[OF d m, of sample_library
      "init True True False ''classic''" True]
  obtain results st' where r: "?run = (Inr results, st')" by blast
  have 1: "fst ?run = Inr [[''html'', ''a.html''], [''html'', ''sub'', ''c.html'']]"
    by code_simp
  have 2: "failure_lines (printed (snd ?run))
      = [([''work'', ''broken.ipynb''], External ''NotJSONError'')]"
    by code_simp
  from r 1 2 show ?thesis by simp
qed

text \<open>
  Claim C8. Let \<open>out\<close> be the output directory given, or \<^verbatim>\<open>input_dir\<close> itself when none
  is given, and let \<^verbatim>\<open>notebook_files\<close> be what \<^verbatim>\<open>convert_directory\<close> enumerates, in the
  file system as it is once the output directory has been created. On a call that returns:

  \<^item> the enumerated notebooks are the existing entries whose name ends in \<open>.ipynb\<close>,
    directly in \<^verbatim>\<open>input_dir\<close>, and also below it, through directories only, exactly when
    \<^verbatim>\<open>recursive\<close> is set;

  \<^item> for every enumerated notebook \<open>input_dir @ ds @ [n]\<close> the relative path with its
    suffix replaced is \<open>ds @ [name_stem n @ ''.html'']\<close>, and either that path under \<open>out\<close>
    is among the paths returned or the notebook is among the failures the call has
    reported, every reported failure being the one of an enumerated notebook; the file
    named \<open>.ipynb\<close>, which has no suffix to replace, is always reported;

  \<^item> for every enumerated notebook the directory \<open>out @ ds\<close> of its output path is a
    directory when the call returns, unless a regular file lies on the way to it;

  \<^item> every path returned is \<open>out @ ds @ [s @ ''.html'']\<close> for an enumerated notebook
    \<open>input_dir @ ds @ [s @ ''.ipynb'']\<close>, and when the call returns it is a regular file
    in the directory \<open>out @ ds\<close>.
\<close>

theorem batch_mirrors_tree:
  assumes run: "convert_directory lib self input_dir output_dir recursive st = (Inr results, st')"
    and out: "out = (case output_dir of None \<Rightarrow> input_dir | Some dir \<Rightarrow> dir)"
    and fs1: "fs1 = (case output_dir of None \<Rightarrow> files st
                     | Some dir \<Rightarrow> snd (mkdir True True dir (files st)))"
    and nbs: "notebook_files = glob fs1 input_dir (if recursive then ''**/*.ipynb'' else ''*.ipynb'')"
  shows "(\<forall>f. f \<in> set notebook_files \<longleftrightarrow>
            (\<exists>ds s. f = input_dir @ ds @ [s @ ''.ipynb''] \<and> path_exists fs1 f \<and>
               (\<forall>r. r \<noteq> [] \<and> prefix r ds \<longrightarrow> is_dir fs1 (input_dir @ r)) \<and>
               (recursive \<or> ds = []))) \<and>
     (\<exists>reported.
        failure_lines (printed st') = failure_lines (printed st) @ reported \<and>
        (\<forall>f e. (f, e) \<in> set reported \<longrightarrow> f \<in> set notebook_files) \<and>
        (\<forall>ds n. input_dir @ ds @ [n] \<in> set notebook_files \<longrightarrow>
           with_suffix (ds @ [n]) ''.html'' = Inr (ds @ [name_stem n @ ''.html'']) \<and>
           (out @ ds @ [name_stem n @ ''.html''] \<in> set results \<or>
            (\<exists>e. (input_dir @ ds @ [n], e) \<in> set reported)) \<and>
           (n = ''.ipynb'' \<longrightarrow> (\<exists>e. (input_dir @ ds @ [n], e) \<in> set reported)) \<and>
           (is_dir (files st') (out @ ds) \<or>
            (\<exists>q. prefix q (out @ ds) \<and> is_file (files st') q)))) \<and>
     (\<forall>p \<in> set results.
        \<exists>ds s. s \<noteq> [] \<and> name_stem (s @ ''.ipynb'') = s \<and>
          input_dir @ ds @ [s @ ''.ipynb''] \<in> set notebook_files \<and>
          p = out @ ds @ [s @ ''.html''] \<and>
          is_file (files st') p \<and> is_dir (files st') (out @ ds))"
proof -
  have en: "f \<in> set notebook_files \<longleftrightarrow>
            (\<exists>ds s. f = input_dir @ ds @ [s @ ''.ipynb''] \<and> path_exists fs1 f \<and>
               (\<forall>r. r \<noteq> [] \<and> prefix r ds \<longrightarrow> is_dir fs1 (input_dir @ r)) \<and>
               (recursive \<or> ds = []))" for f
    unfolding nbs by (rule glob_enumeration)
  have form: "\<forall>f \<in> set notebook_files. \<exists>ds n. f = input_dir @ ds @ [n] \<and> n \<noteq> []"
  proof
    fix f assume "f \<in> set notebook_files"
    then obtain ds s where "f = input_dir @ ds @ [s @ ''.ipynb'']" unfolding en by blast
    moreover have "s @ ''.ipynb'' \<noteq> []" by simp
    ultimately show "\<exists>ds n. f = input_dir @ ds @ [n] \<and> n \<noteq> []" by blast
  qed
  have nonempty: "n \<noteq> []" if "input_dir @ ds @ [n] \<in> set notebook_files" for ds n
  proof -
    from form that obtain ds' n' where "input_dir @ ds @ [n] = input_dir @ ds' @ [n']" "n' \<noteq> []"
      by blast
    then show ?thesis by simp
  qed
  from convert_directory_Inr[OF run out fs1 nbs] obtain st1 where
    p1: "printed st1 = printed st"
    and cd: "if notebook_files = []
      then results = [] \<and> st' = print (NoNotebooksFound input_dir) st1
      else convert_directory_loop lib self input_dir out notebook_files []
             (print (Found (length notebook_files)) st1) = (results, st')" by blast
  show ?thesis
  proof (cases "notebook_files = []")
    case True
    with cd p1 have "results = []"
      and "failure_lines (printed st') = failure_lines (printed st) @ []"
      by (simp_all add: failure_lines_append)
    then have r0: "results = []"
      and f0: "failure_lines (printed st') = failure_lines (printed st) @ []" by blast+
    have c1: "\<forall>f. f \<in> set notebook_files \<longleftrightarrow>
            (\<exists>ds s. f = input_dir @ ds @ [s @ ''.ipynb''] \<and> path_exists fs1 f \<and>
               (\<forall>r. r \<noteq> [] \<and> prefix r ds \<longrightarrow> is_dir fs1 (input_dir @ r)) \<and>
               (recursive \<or> ds = []))"
      by (rule allI) (rule en)
    have c2: "\<exists>reported.
        failure_lines (printed st') = failure_lines (printed st) @ reported \<and>
        (\<forall>f e. (f, e) \<in> set reported \<longrightarrow> f \<in> set notebook_files) \<and>
        (\<forall>ds n. input_dir @ ds @ [n] \<in> set notebook_files \<longrightarrow>
           with_suffix (ds @ [n]) ''.html'' = Inr (ds @ [name_stem n @ ''.html'']) \<and>
           (out @ ds @ [name_stem n @ ''.html''] \<in> set results \<or>
            (\<exists>e. (input_dir @ ds @ [n], e) \<in> set reported)) \<and>
           (n = ''.ipynb'' \<longrightarrow> (\<exists>e. (input_dir @ ds @ [n], e) \<in> set reported)) \<and>
           (is_dir (files st') (out @ ds) \<or>
            (\<exists>q. prefix q (out @ ds) \<and> is_file (files st') q)))"
      by (rule exI[of _ "[]"]) (simp add: True f0)
    have c3: "\<forall>p \<in> set results.
        \<exists>ds s. s \<noteq> [] \<and> name_stem (s @ ''.ipynb'') = s \<and>
          input_dir @ ds @ [s @ ''.ipynb''] \<in> set notebook_files \<and>
          p = out @ ds @ [s @ ''.html''] \<and>
          is_file (files st') p \<and> is_dir (files st') (out @ ds)"
      by (simp add: r0)
    from c1 c2 c3 show ?thesis by (intro conjI)
  next
    case False
    let ?st0 = "print (Found (length notebook_files)) st1"
    let ?os = "batch_outcomes lib self input_dir out notebook_files ?st0"
    from False cd have l: "convert_directory_loop lib self input_dir out notebook_files [] ?st0
        = (results, st')" by simp
    from loop_outcomes[OF l] have rs: "results = successes ?os"
      and ks: "map fst ?os = notebook_files"
      and fl: "failure_lines (printed st') = failure_lines (printed st) @ failures ?os"
      using p1 by (simp_all add: failure_lines_append)
    from loop_final[OF l form] have
      dirs: "\<And>ds n. input_dir @ ds @ [n] \<in> set notebook_files \<Longrightarrow>
        is_dir (files st') (out @ ds) \<or> (\<exists>q. prefix q (out @ ds) \<and> is_file (files st') q)"
      and fin: "\<And>p. p \<in> set results \<Longrightarrow>
        is_file (files st') p \<and> is_dir (files st') (parent p)"
      by auto
    have rep: "\<forall>f e. (f, e) \<in> set (failures ?os) \<longrightarrow> f \<in> set notebook_files"
      using failures_member[of _ _ ?os] ks by auto
    have each: "with_suffix (ds @ [n]) ''.html'' = Inr (ds @ [name_stem n @ ''.html'']) \<and>
           (out @ ds @ [name_stem n @ ''.html''] \<in> set results \<or>
            (\<exists>e. (input_dir @ ds @ [n], e) \<in> set (failures ?os))) \<and>
           (n = ''.ipynb'' \<longrightarrow> (\<exists>e. (input_dir @ ds @ [n], e) \<in> set (failures ?os))) \<and>
           (is_dir (files st') (out @ ds) \<or>
            (\<exists>q. prefix q (out @ ds) \<and> is_file (files st') q))"
      if m: "input_dir @ ds @ [n] \<in> set notebook_files" for ds n
    proof -
      let ?f = "input_dir @ ds @ [n]"
      note ne = nonempty[OF m]
      from m ks have "?f \<in> set (map fst ?os)" by simp
      then obtain r where r: "(?f, r) \<in> set ?os" by (auto dest: outcome_exists)
      have a: "out @ ds @ [name_stem n @ ''.html''] \<in> set results \<and> n \<noteq> ''.ipynb''"
        if rp: "r = Inr p" for p
      proof -
        from r rp batch_outcomes_member[of ?f p lib self input_dir out notebook_files ?st0]
        obtain sa sb where t: "convert_directory_try lib self input_dir out ?f sa = (Inr p, sb)"
          by blast
        from body_cases(3)[OF ne t refl] have p: "p = out @ ds @ [name_stem n @ ''.html'']"
          and sx: "lower (name_suffix n) = ''.ipynb''" by blast+
        from r rp have "p \<in> set results" unfolding rs by (auto intro: successes_intro)
        moreover have "n \<noteq> ''.ipynb''"
        proof
          assume "n = ''.ipynb''"
          with sx stemless_suffix[of "[]"] show False by simp
        qed
        ultimately show ?thesis using p by simp
      qed
      have b: "(?f, e) \<in> set (failures ?os)" if "r = Inl e" for e
        using r that by (auto intro: failures_intro)
      from a b have "(out @ ds @ [name_stem n @ ''.html''] \<in> set results \<or>
            (\<exists>e. (?f, e) \<in> set (failures ?os))) \<and>
           (n = ''.ipynb'' \<longrightarrow> (\<exists>e. (?f, e) \<in> set (failures ?os)))"
        by (cases r) blast+
      with notebook_paths(2)[OF ne, of ds] dirs[OF m] show ?thesis by blast
    qed
    have res: "\<exists>ds s. s \<noteq> [] \<and> name_stem (s @ ''.ipynb'') = s \<and>
          input_dir @ ds @ [s @ ''.ipynb''] \<in> set notebook_files \<and>
          p = out @ ds @ [s @ ''.html''] \<and>
          is_file (files st') p \<and> is_dir (files st') (out @ ds)"
      if pr: "p \<in> set results" for p
    proof -
      from pr obtain f where "(f, Inr p) \<in> set ?os"
        unfolding rs by (auto dest: successes_member)
      from batch_outcomes_member[OF this] obtain sa sb where fm: "f \<in> set notebook_files"
        and t: "convert_directory_try lib self input_dir out f sa = (Inr p, sb)" by blast
      from fm obtain ds s where f: "f = input_dir @ ds @ [s @ ''.ipynb'']"
        unfolding en by blast
      have ne: "s @ ''.ipynb'' \<noteq> []" by simp
      from body_cases(3)[OF ne t[unfolded f] refl]
      have p: "p = out @ ds @ [name_stem (s @ ''.ipynb'') @ ''.html'']"
        and sx: "lower (name_suffix (s @ ''.ipynb'')) = ''.ipynb''" by blast+
      from sx have s: "s \<noteq> []" by (rule stemless_suffix)
      note st = name_stem_ipynb[OF s]
      from p st have p': "p = out @ ds @ [s @ ''.html'']" by simp
      then have "parent p = out @ ds" by (simp add: parent_def butlast_append)
      with fin[OF pr] have "is_file (files st') p \<and> is_dir (files st') (out @ ds)" by simp
      with s st fm f p' show ?thesis by blast
    qed
    have c1: "\<forall>f. f \<in> set notebook_files \<longleftrightarrow>
            (\<exists>ds s. f = input_dir @ ds @ [s @ ''.ipynb''] \<and> path_exists fs1 f \<and>
               (\<forall>r. r \<noteq> [] \<and> prefix r ds \<longrightarrow> is_dir fs1 (input_dir @ r)) \<and>
               (recursive \<or> ds = []))"
      by (rule allI) (rule en)
    have c2: "\<exists>reported.
        failure_lines (printed st') = failure_lines (printed st) @ reported \<and>
        (\<forall>f e. (f, e) \<in> set reported \<longrightarrow> f \<in> set notebook_files) \<and>
        (\<forall>ds n. input_dir @ ds @ [n] \<in> set notebook_files \<longrightarrow>
           with_suffix (ds @ [n]) ''.html'' = Inr (ds @ [name_stem n @ ''.html'']) \<and>
           (out @ ds @ [name_stem n @ ''.html''] \<in> set results \<or>
            (\<exists>e. (input_dir @ ds @ [n], e) \<in> set reported)) \<and>
           (n = ''.ipynb'' \<longrightarrow> (\<exists>e. (input_dir @ ds @ [n], e) \<in> set reported)) \<and>
           (is_dir (files st') (out @ ds) \<or>
            (\<exists>q. prefix q (out @ ds) \<and> is_file (files st') q)))"
    proof (rule exI[of _ "failures ?os"], intro conjI)
      show "failure_lines (printed st') = failure_lines (printed st) @ failures ?os" by (rule fl)
      show "\<forall>f e. (f, e) \<in> set (failures ?os) \<longrightarrow> f \<in> set notebook_files" by (rule rep)
      show "\<forall>ds n. input_dir @ ds @ [n] \<in> set notebook_files \<longrightarrow>
           with_suffix (ds @ [n]) ''.html'' = Inr (ds @ [name_stem n @ ''.html'']) \<and>
           (out @ ds @ [name_stem n @ ''.html''] \<in> set results \<or>
            (\<exists>e. (input_dir @ ds @ [n], e) \<in> set (failures ?os))) \<and>
           (n = ''.ipynb'' \<longrightarrow> (\<exists>e. (input_dir @ ds @ [n], e) \<in> set (failures ?os))) \<and>
           (is_dir (files st') (out @ ds) \<or>
            (\<exists>q. prefix q (out @ ds) \<and> is_file (files st') q))"
        by (intro allI impI) (rule each)
    qed
    have c3: "\<forall>p \<in> set results.
        \<exists>ds s. s \<noteq> [] \<and> name_stem (s @ ''.ipynb'') = s \<and>
          input_dir @ ds @ [s @ ''.ipynb''] \<in> set notebook_files \<and>
          p = out @ ds @ [s @ ''.html''] \<and>
          is_file (files st') p \<and> is_dir (files st') (out @ ds)"
      by (rule ballI) (rule res)
    from c1 c2 c3 show ?thesis by (intro conjI)
  qed
qed

theorem batch_mirrors_tree_witness:
  "fst (convert_directory sample_library (init True True False ''classic'') [''work'']
          (Some [''html'']) True sample_state)
     = Inr [[''html'', ''a.html''], [''html'', ''sub'', ''c.html'']] \<and>
   \<not> is_dir (files sample_state) [''html'', ''sub''] \<and>
   (is_dir (files (snd (convert_directory sample_library (init True True False ''classic'')
        [''work''] (Some [''html'']) True sample_state))) [''html'', ''sub''] \<or>
    (\<exists>q. prefix q [''html'', ''sub''] \<and>
       is_file (files (snd (convert_directory sample_library (init True True False ''classic'')
        [''work''] (Some [''html'']) True sample_state))) q)) \<and>
   (\<exists>reported.
      failure_lines (printed (snd (convert_directory sample_library
        (init True True False ''classic'') [''work''] (Some [''html'']) True sample_state)))
        = failure_lines (printed sample_state) @ reported \<and>
      (\<exists>e. ([''work'', ''broken.ipynb''], e) \<in> set reported)) \<and>
   (\<exists>ds s. s \<noteq> [] \<and> [''work''] @ ds @ [s @ ''.ipynb''] = [''work'', ''sub'', ''c.ipynb''] \<and>
      [''html'', ''sub'', ''c.html''] = [''html''] @ ds @ [s @ ''.html''] \<and>
      is_file (files (snd (convert_directory sample_library (init True True False ''classic'')
        [''work''] (Some [''html'']) True sample_state))) [''html'', ''sub'', ''c.html''] \<and>
      is_dir (files (snd (convert_directory sample_library (init True True False ''classic'')
        [''work''] (Some [''html'']) True sample_state))) ([''html''] @ ds))"
proof -
  let ?self = "init True True False ''classic''"
  let ?run = "convert_directory sample_library ?self [''work''] (Some [''html'']) True sample_state"
  let ?results = "[[''html'', ''a.html''], [''html'', ''sub'', ''c.html'']]"
  let ?fs1 = "case Some [''html''] of None \<Rightarrow> files sample_state
              | Some dir \<Rightarrow> snd (mkdir True True dir (files sample_state))"
  let ?nbs = "glob ?fs1 [''work''] (if True then ''**/*.ipynb'' else ''*.ipynb'')"
  have r0: "fst ?run = Inr ?results" by code_simp
  have r: "?run = (Inr ?results, snd ?run)" using r0 by (metis prod.collapse)
  have o: "[''html''] = (case Some [''html''] of None \<Rightarrow> [''work''] | Some dir \<Rightarrow> dir)"
    by simp
  note t = batch_mirrors_tree[OF r o refl refl]
  have d0: "\<not> is_dir (files sample_state) [''html'', ''sub'']" by code_simp
  have c: "[''work''] @ [''sub''] @ [''c.ipynb''] \<in> set ?nbs" by code_simp
  have b: "[''work''] @ [] @ [''broken.ipynb''] \<in> set ?nbs" by code_simp
  have nb: "[''html''] @ [] @ [name_stem ''broken.ipynb'' @ ''.html''] \<notin> set ?results"
    by code_simp
  have m: "[''html'', ''sub'', ''c.html''] \<in> set ?results" by simp
  from t obtain reported where
    fl: "failure_lines (printed (snd ?run)) = failure_lines (printed sample_state) @ reported"
    and each: "\<forall>ds n. [''work''] @ ds @ [n] \<in> set ?nbs \<longrightarrow>
           with_suffix (ds @ [n]) ''.html'' = Inr (ds @ [name_stem n @ ''.html'']) \<and>
           ([''html''] @ ds @ [name_stem n @ ''.html''] \<in> set ?results \<or>
            (\<exists>e. ([''work''] @ ds @ [n], e) \<in> set reported)) \<and>
           (n = ''.ipynb'' \<longrightarrow> (\<exists>e. ([''work''] @ ds @ [n], e) \<in> set reported)) \<and>
           (is_dir (files (snd ?run)) ([''html''] @ ds) \<or>
            (\<exists>q. prefix q ([''html''] @ ds) \<and> is_file (files (snd ?run)) q))"
    by (elim conjE exE)
  from each c have "is_dir (files (snd ?run)) ([''html''] @ [''sub'']) \<or>
      (\<exists>q. prefix q ([''html''] @ [''sub'']) \<and> is_file (files (snd ?run)) q)"
    by (elim allE[of _ "[''sub'']"] allE[of _ "''c.ipynb''"]) (elim impE, assumption, elim conjE)
  then have 2: "is_dir (files (snd ?run)) [''html'', ''sub''] \<or>
      (\<exists>q. prefix q [''html'', ''sub''] \<and> is_file (files (snd ?run)) q)" by simp
  from each b have "[''html''] @ [] @ [name_stem ''broken.ipynb'' @ ''.html''] \<in> set ?results \<or>
      (\<exists>e. ([''work''] @ [] @ [''broken.ipynb''], e) \<in> set reported)"
    by (elim allE[of _ "[]"] allE[of _ "''broken.ipynb''"]) (elim impE, assumption, elim conjE)
  with nb have "\<exists>e. ([''work''] @ [] @ [''broken.ipynb''], e) \<in> set reported" by blast
  then have br: "\<exists>e. ([''work'', ''broken.ipynb''], e) \<in> set reported" by simp
  from conjI[OF fl br] have 3: "\<exists>reported.
      failure_lines (printed (snd ?run)) = failure_lines (printed sample_state) @ reported \<and>
      (\<exists>e. ([''work'', ''broken.ipynb''], e) \<in> set reported)" by (rule exI)
  from t have "\<forall>p \<in> set ?results.
        \<exists>ds s. s \<noteq> [] \<and> name_stem (s @ ''.ipynb'') = s \<and>
          [''work''] @ ds @ [s @ ''.ipynb''] \<in> set ?nbs \<and>
          p = [''html''] @ ds @ [s @ ''.html''] \<and>
          is_file (files (snd ?run)) p \<and> is_dir (files (snd ?run)) ([''html''] @ ds)"
    by (elim conjE)
  from bspec[OF this m] obtain ds s where s: "s \<noteq> []"
    and p: "[''html'', ''sub'', ''c.html''] = [''html''] @ ds @ [s @ ''.html'']"
    and f: "is_file (files (snd ?run)) [''html'', ''sub'', ''c.html'']"
    and d: "is_dir (files (snd ?run)) ([''html''] @ ds)" by (elim exE conjE)
  from p have "ds @ [s @ ''.html''] = [''sub''] @ [''c'' @ ''.html'']" by simp
  then have "ds = [''sub''] \<and> s @ ''.html'' = ''c'' @ ''.html''"
    by (simp only: append1_eq_conv)
  then have "ds = [''sub'']" "s = ''c''" by simp_all
  then have i: "[''work''] @ ds @ [s @ ''.ipynb''] = [''work'', ''sub'', ''c.ipynb'']" by simp
  from s i p f d have 4: "\<exists>ds s. s \<noteq> [] \<and>
      [''work''] @ ds @ [s @ ''.ipynb''] = [''work'', ''sub'', ''c.ipynb''] \<and>
      [''html'', ''sub'', ''c.html''] = [''html''] @ ds @ [s @ ''.html''] \<and>
      is_file (files (snd ?run)) [''html'', ''sub'', ''c.html''] \<and>
      is_dir (files (snd ?run)) ([''html''] @ ds)" by blast
  from r0 d0 2 3 4 show ?thesis by (intro conjI)
qed

end
